theory Spec2Isabelle
  imports
    Complex_Main
    "HOL-Library.Word"
    "HOL-Library.List_Lexorder"
    "HOL-Library.Sublist"
    "HOL-Library.Log_Nat"
begin

section \<open>JavaScript values used by the translation compiler\<close>

subsection \<open>Strings\<close>

text \<open>
  A JavaScript string is a finite sequence of 16-bit code units. Equality (\<open>===\<close>),
  the default \<open>Array.prototype.sort\<close> order and regular expressions without the \<open>u\<close>
  flag all work on code units, so a string is a list of 16-bit words; the order on lists is
  the lexicographic one of \<open>HOL-Library.List_Lexorder\<close> over the unsigned order on words.
  \<open>str\<close> writes the ASCII literals of the source.
\<close>

type_synonym code_unit = "16 word"
type_synonym js_string = "code_unit list"

definition str :: "string \<Rightarrow> js_string" where
  "str s = map of_char s"

text \<open>Decimal rendering of a non-negative integer, as a template literal inserts it.\<close>

function show_nat :: "nat \<Rightarrow> js_string" where
  "show_nat n =
     (if n < 10 then [of_nat (48 + n)]
      else show_nat (n div 10) @ [of_nat (48 + n mod 10)])"
  by pat_completeness auto
termination
  by (relation "measure id") auto

declare show_nat.simps [simp del]

text \<open>\<open>Array.prototype.join\<close> with a separator.\<close>

fun join_with :: "js_string \<Rightarrow> js_string list \<Rightarrow> js_string" where
  "join_with sep [] = []"
| "join_with sep [x] = x"
| "join_with sep (x # y # rest) = x @ sep @ join_with sep (y # rest)"

text \<open>
  The code units that \<open>String.prototype.trim\<close> strips and that \<open>\s\<close> matches:
  the WhiteSpace and LineTerminator productions of ECMAScript.
\<close>

definition is_js_space :: "code_unit \<Rightarrow> bool" where
  "is_js_space c \<longleftrightarrow>
     c \<in> {0x0009, 0x000A, 0x000B, 0x000C, 0x000D, 0x0020, 0x00A0, 0x1680,
          0x2028, 0x2029, 0x202F, 0x205F, 0x3000, 0xFEFF}
     \<or> (0x2000 \<le> c \<and> c \<le> 0x200A)"

definition js_trim :: "js_string \<Rightarrow> js_string" where
  "js_trim s = rev (dropWhile is_js_space (rev (dropWhile is_js_space s)))"

text \<open>
  \<open>s.split(/\s+/)\<close>: every maximal run of white space is one separator; a separator at
  the start or the end leaves an empty first or last piece, and the empty string gives the
  one-element list holding the empty string. The flag says that the previous code unit
  belonged to a separator.
\<close>

fun split_ws_from :: "bool \<Rightarrow> js_string \<Rightarrow> js_string \<Rightarrow> js_string list" where
  "split_ws_from in_sep cur [] = [cur]"
| "split_ws_from in_sep cur (c # cs) =
     (if is_js_space c then
        (if in_sep then split_ws_from True [] cs else cur # split_ws_from True [] cs)
      else split_ws_from False (cur @ [c]) cs)"

definition split_ws :: "js_string \<Rightarrow> js_string list" where
  "split_ws s = split_ws_from False [] s"

text \<open>\<open>String.prototype.includes\<close>: the argument occurs as a contiguous run.\<close>

fun js_includes :: "js_string \<Rightarrow> js_string \<Rightarrow> bool" where
  "js_includes [] sub = (sub = [])"
| "js_includes (c # cs) sub = (prefix sub (c # cs) \<or> js_includes cs sub)"

text \<open>
  A JavaScript \<open>Set\<close> built from an iterable keeps the first occurrence of each value in
  insertion order.
\<close>

definition set_add :: "'a list \<Rightarrow> 'a \<Rightarrow> 'a list" where
  "set_add acc x = (if x \<in> set acc then acc else acc @ [x])"

definition new_Set :: "'a list \<Rightarrow> 'a list" where
  "new_Set xs = foldl set_add [] xs"

subsection \<open>Numbers\<close>

text \<open>
  A JavaScript number is an IEEE 754 binary64 value: a rational that is a multiple of a
  power of two with a 53-bit significand, an infinity, or NaN. The sign of zero is not
  kept: none of the modelled code can observe it. \<open>fl\<close> rounds an exact rational to the
  nearest representable value, ties to the even significand, with gradual underflow below
  \<open>2\<^sup>-\<^sup>1\<^sup>0\<^sup>2\<^sup>2\<close> and overflow to infinity, as every arithmetic operation and every
  decimal literal of the source does.
\<close>

datatype js_number = Num rat | PosInf | NegInf | NaN

definition pow2 :: "int \<Rightarrow> rat" where
  "pow2 e = (if 0 \<le> e then 2 ^ nat e else 1 / 2 ^ nat (- e))"

text \<open>
  \<open>ilog2 x\<close> is the binary exponent of a positive rational: \<open>2\<^sup>e \<le> x < 2\<^sup>e\<^sup>+\<^sup>1\<close>.
  \<open>round_half_even num den\<close> is the integer nearest to the fraction \<open>num / den\<close>, the even
  one of the two at a tie. Both work on the numerator and the denominator.
\<close>

definition ilog2 :: "rat \<Rightarrow> int" where
  "ilog2 x =
     (let (p, q) = quotient_of x; d = bitlen p - bitlen q
      in if (if 0 \<le> d then q * 2 ^ nat d \<le> p else q \<le> p * 2 ^ nat (- d))
         then d else d - 1)"

definition round_half_even :: "int \<Rightarrow> int \<Rightarrow> int" where
  "round_half_even num den =
     (let f = num div den; r = num mod den
      in if 2 * r < den then f else if den < 2 * r then f + 1
         else if even f then f else f + 1)"

text \<open>
  \<open>fl x\<close>: with \<open>e\<close> the exponent of \<open>x\<close>, at least \<open>-1022\<close>, the significand \<open>n\<close> is
  \<open>\<bar>x\<bar> / 2\<^sup>e\<^sup>-\<^sup>5\<^sup>2\<close> rounded to an integer, and the result is \<open>n\<close> times \<open>2\<^sup>e\<^sup>-\<^sup>5\<^sup>2\<close> with the sign of
  \<open>x\<close>, or an infinity when that reaches \<open>2\<^sup>1\<^sup>0\<^sup>2\<^sup>4\<close>.
\<close>

definition fl :: "rat \<Rightarrow> js_number" where
  "fl x =
     (if x = 0 then Num 0
      else
        let (p, q) = quotient_of \<bar>x\<bar>;
            e = max (ilog2 \<bar>x\<bar>) (- 1022);
            n = (if e \<le> 52 then round_half_even (p * 2 ^ nat (52 - e)) q
                 else round_half_even p (q * 2 ^ nat (e - 52)))
        in if 1024 \<le> e \<or> (e = 1023 \<and> n = 2 ^ 53)
           then (if 0 < x then PosInf else NegInf)
           else Num ((if 0 < x then 1 else - 1) * of_int n * pow2 (e - 52)))"

fun js_sign :: "js_number \<Rightarrow> int" where
  "js_sign (Num a) = (if 0 < a then 1 else if a < 0 then - 1 else 0)"
| "js_sign PosInf = 1"
| "js_sign NegInf = - 1"
| "js_sign NaN = 0"

definition signed_inf :: "int \<Rightarrow> js_number" where
  "signed_inf s = (if s = 0 then NaN else if 0 < s then PosInf else NegInf)"

fun js_mul :: "js_number \<Rightarrow> js_number \<Rightarrow> js_number" where
  "js_mul (Num a) (Num b) = fl (a * b)"
| "js_mul NaN y = NaN"
| "js_mul x NaN = NaN"
| "js_mul x y = signed_inf (js_sign x * js_sign y)"

fun js_div :: "js_number \<Rightarrow> js_number \<Rightarrow> js_number" where
  "js_div (Num a) (Num b) =
     (if b = 0 then signed_inf (js_sign (Num a)) else fl (a / b))"
| "js_div NaN y = NaN"
| "js_div x NaN = NaN"
| "js_div (Num a) y = Num 0"
| "js_div x (Num b) = signed_inf (js_sign x * (if b < 0 then - 1 else 1))"
| "js_div x y = NaN"

fun js_gt :: "js_number \<Rightarrow> js_number \<Rightarrow> bool" where
  "js_gt (Num a) (Num b) = (b < a)"
| "js_gt NaN y = False"
| "js_gt x NaN = False"
| "js_gt PosInf y = (y \<noteq> PosInf)"
| "js_gt x NegInf = (x \<noteq> NegInf)"
| "js_gt x y = False"

text \<open>The operand of \<open>||\<close> is falsy when it is zero or NaN.\<close>

fun js_falsy_number :: "js_number \<Rightarrow> bool" where
  "js_falsy_number (Num a) = (a = 0)"
| "js_falsy_number NaN = True"
| "js_falsy_number x = False"

section \<open>The ledger\<close>

text \<open>
  The ledger is an SQLite database. Its table \<open>source_hashes\<close> has the primary key
  \<open>key_path\<close> and its table \<open>sync_status\<close> the primary key \<open>(key_path, lang_code)\<close>, so each
  table is a map from its key to its row. \<open>CURRENT_TIMESTAMP\<close> is the
  text the database clock gives when a statement runs; every writing operation takes it as
  the argument \<open>now\<close>.
\<close>

datatype SyncStatusType = CLEAN | DIRTY | FAILED | MANUAL | SKIPPED

record source_hash_row =
  value_hash :: js_string
  context_sig :: "js_string option"
  last_seen_run :: "js_string option"
  hash_updated_at :: js_string

record SyncStatus =
  key_path :: js_string
  lang_code :: js_string
  target_hash :: js_string
  status :: SyncStatusType
  model_fingerprint :: "js_string option"
  prompt_version :: "int option"
  updated_at :: js_string

record ledger =
  source_hashes :: "js_string \<rightharpoonup> source_hash_row"
  sync_status :: "js_string \<times> js_string \<rightharpoonup> SyncStatus"

text \<open>
  \<open>x || null\<close> on an optional string argument: an omitted argument and the empty string
  both become \<open>null\<close>; on an optional number, an omitted argument and zero do.
\<close>

fun string_or_null :: "js_string option \<Rightarrow> js_string option" where
  "string_or_null None = None"
| "string_or_null (Some s) = (if s = [] then None else Some s)"

fun int_or_null :: "int option \<Rightarrow> int option" where
  "int_or_null None = None"
| "int_or_null (Some n) = (if n = 0 then None else Some n)"

text \<open>
  \<open>getSourceHash\<close> returns \<open>row?.value_hash || null\<close>: \<open>null\<close> when there is no row, and
  also when the stored hash is the empty string.
\<close>

definition getSourceHash :: "ledger \<Rightarrow> js_string \<Rightarrow> js_string option" where
  "getSourceHash l keyPath =
     (case source_hashes l keyPath of
        None \<Rightarrow> None
      | Some row \<Rightarrow> string_or_null (Some (value_hash row)))"

definition updateSourceHash ::
  "js_string \<Rightarrow> ledger \<Rightarrow> js_string \<Rightarrow> js_string \<Rightarrow> js_string option \<Rightarrow> js_string option \<Rightarrow> ledger"
where
  "updateSourceHash now l keyPath valueHash contextSig runId =
     l\<lparr>source_hashes := (source_hashes l)(keyPath \<mapsto>
         \<lparr>value_hash = valueHash,
          context_sig = string_or_null contextSig,
          last_seen_run = string_or_null runId,
          hash_updated_at = now\<rparr>)\<rparr>"

definition getSyncStatus :: "ledger \<Rightarrow> js_string \<Rightarrow> js_string \<Rightarrow> SyncStatus option" where
  "getSyncStatus l keyPath langCode = sync_status l (keyPath, langCode)"

definition updateSyncStatus ::
  "js_string \<Rightarrow> ledger \<Rightarrow> js_string \<Rightarrow> js_string \<Rightarrow> js_string \<Rightarrow> SyncStatusType \<Rightarrow>
   js_string option \<Rightarrow> int option \<Rightarrow> ledger"
where
  "updateSyncStatus now l keyPath langCode targetHash st modelFingerprint promptVersion =
     l\<lparr>sync_status := (sync_status l)((keyPath, langCode) \<mapsto>
         \<lparr>key_path = keyPath,
          lang_code = langCode,
          target_hash = targetHash,
          status = st,
          model_fingerprint = string_or_null modelFingerprint,
          prompt_version = int_or_null promptVersion,
          updated_at = now\<rparr>)\<rparr>"

section \<open>The planner\<close>

record SourceUnit =
  unitId :: js_string
  keyPath :: js_string
  sourceText :: js_string
  sourceHash :: js_string
  unit_context :: "js_string option"
  placeholders :: "js_string list"
  sourceFile :: js_string
  schemaVersion :: int

record TargetLanguage =
  language :: js_string
  shortCode :: js_string

record TranslationBatch =
  batchId :: js_string
  sourceUnits :: "SourceUnit list"
  targetLanguage :: js_string
  deduplicationKey :: js_string

record TranslationPlan =
  batches :: "TranslationBatch list"
  totalUnits :: nat
  estimatedCost :: js_number

text \<open>
  The decision \<open>detectChanges\<close> takes for one unit inside its loop, in the order of the
  source's \<open>if\<close> chain. \<open>storedHash !== unit.sourceHash\<close> compares the value
  \<open>getSourceHash\<close> returned, which may be \<open>null\<close>, with a string.
\<close>

definition needsTranslation :: "ledger \<Rightarrow> js_string \<Rightarrow> SourceUnit \<Rightarrow> bool" where
  "needsTranslation l targetLang unit =
     (let storedHash = getSourceHash l (keyPath unit);
          sourceChanged = (storedHash \<noteq> Some (sourceHash unit))
      in case getSyncStatus l (keyPath unit) targetLang of
           None \<Rightarrow> True
         | Some syncStatus \<Rightarrow>
             if status syncStatus = MANUAL then False
             else if sourceChanged then True
             else if status syncStatus = FAILED \<or> status syncStatus = DIRTY then True
             else False)"

fun detectChanges :: "ledger \<Rightarrow> SourceUnit list \<Rightarrow> js_string \<Rightarrow> SourceUnit list" where
  "detectChanges l [] targetLang = []"
| "detectChanges l (unit # rest) targetLang =
     (if needsTranslation l targetLang unit
      then unit # detectChanges l rest targetLang
      else detectChanges l rest targetLang)"

text \<open>
  \<open>createBatches\<close> runs \<open>for (let i = 0; i < units.length; i += batchSize)\<close>. With
  \<open>batchSize = 0\<close> and a non-empty list the loop never ends, which is the result \<open>None\<close>.
  \<open>Date.now()\<close> is read once per batch: \<open>clock k\<close> is the \<open>k\<close>-th reading of the system
  clock in milliseconds and \<open>tick\<close> counts the readings made so far. \<open>computeHash\<close> is the
  SHA-256 hex digest of the runtime's crypto library, taken as a parameter.
\<close>

definition make_batch ::
  "(js_string \<Rightarrow> js_string) \<Rightarrow> nat \<Rightarrow> SourceUnit list \<Rightarrow> js_string \<Rightarrow> nat \<Rightarrow> nat \<Rightarrow>
   TranslationBatch"
where
  "make_batch computeHash now units targetLang batchSize i =
     (let batchUnits = take batchSize (drop i units)
      in \<lparr>batchId = str ''batch_'' @ targetLang @ str ''_'' @ show_nat now
                      @ str ''_'' @ show_nat i,
          sourceUnits = batchUnits,
          targetLanguage = targetLang,
          deduplicationKey =
            computeHash (join_with (str ''_'') (map sourceHash batchUnits))\<rparr>)"

function createBatches_from ::
  "(js_string \<Rightarrow> js_string) \<Rightarrow> (nat \<Rightarrow> nat) \<Rightarrow> nat \<Rightarrow> SourceUnit list \<Rightarrow> js_string \<Rightarrow> nat \<Rightarrow> nat \<Rightarrow>
   TranslationBatch list option"
where
  "createBatches_from computeHash clock tick units targetLang batchSize i =
     (if i < length units then
        (if batchSize = 0 then None
         else
           map_option ((#) (make_batch computeHash (clock tick) units targetLang batchSize i))
             (createBatches_from computeHash clock (Suc tick) units targetLang batchSize
                (i + batchSize)))
      else Some [])"
  by pat_completeness auto
termination
proof (relation "measure (\<lambda>(computeHash, clock, tick, units, targetLang, batchSize, i).
        length units - i)")
  show "wf (measure (\<lambda>(computeHash :: js_string \<Rightarrow> js_string, clock :: nat \<Rightarrow> nat, tick :: nat,
        units :: SourceUnit list, targetLang :: js_string, batchSize :: nat, i :: nat).
        length units - i))"
    by (rule wf_measure)
next
  fix computeHash :: "js_string \<Rightarrow> js_string" and clock :: "nat \<Rightarrow> nat" and tick :: nat
    and units :: "SourceUnit list" and targetLang :: js_string and batchSize i :: nat
  assume "i < length units" and "batchSize \<noteq> 0"
  then have "length units - (i + batchSize) < length units - i"
    by arith
  then show "((computeHash, clock, Suc tick, units, targetLang, batchSize, i + batchSize),
              (computeHash, clock, tick, units, targetLang, batchSize, i))
             \<in> measure (\<lambda>(computeHash, clock, tick, units, targetLang, batchSize, i).
                  length units - i)"
    by simp
qed

declare createBatches_from.simps [simp del]

definition createBatches ::
  "(js_string \<Rightarrow> js_string) \<Rightarrow> (nat \<Rightarrow> nat) \<Rightarrow> nat \<Rightarrow> SourceUnit list \<Rightarrow> js_string \<Rightarrow> nat \<Rightarrow>
   TranslationBatch list option"
where
  "createBatches computeHash clock tick units targetLang batchSize =
     createBatches_from computeHash clock tick units targetLang batchSize 0"

text \<open>
  \<open>estimateCost\<close> computes \<open>(totalUnits * 100 / 1000) * 0.01\<close> in binary64 arithmetic.
\<close>

definition estimateCost :: "nat \<Rightarrow> js_number" where
  "estimateCost n =
     (let tokensPerUnit = Num 100;
          totalTokens = js_mul (fl (of_nat n)) tokensPerUnit;
          costPer1kTokens = fl (1 / 100)
      in js_mul (js_div totalTokens (Num 1000)) costPer1kTokens)"

text \<open>
  The loop of \<open>createPlan\<close> over the target languages, with its two accumulators and the
  count of clock readings. \<open>createBatches\<close> is called without a batch size, so with the
  default 20.
\<close>

fun createPlan_loop ::
  "(js_string \<Rightarrow> js_string) \<Rightarrow> (nat \<Rightarrow> nat) \<Rightarrow> ledger \<Rightarrow> SourceUnit list \<Rightarrow> TargetLanguage list \<Rightarrow>
   TranslationBatch list \<Rightarrow> nat \<Rightarrow> nat \<Rightarrow> (TranslationBatch list \<times> nat) option"
where
  "createPlan_loop computeHash clock l units [] bs n tick = Some (bs, n)"
| "createPlan_loop computeHash clock l units (lang # langs) bs n tick =
     (let unitsNeedingTranslation = detectChanges l units (shortCode lang)
      in if length unitsNeedingTranslation = 0
         then createPlan_loop computeHash clock l units langs bs n tick
         else
           case createBatches computeHash clock tick unitsNeedingTranslation (shortCode lang) 20 of
             None \<Rightarrow> None
           | Some langBatches \<Rightarrow>
               createPlan_loop computeHash clock l units langs (bs @ langBatches)
                 (n + length unitsNeedingTranslation) (tick + length langBatches))"

definition createPlan ::
  "(js_string \<Rightarrow> js_string) \<Rightarrow> (nat \<Rightarrow> nat) \<Rightarrow> ledger \<Rightarrow> SourceUnit list \<Rightarrow> TargetLanguage list \<Rightarrow>
   TranslationPlan option"
where
  "createPlan computeHash clock l units langs =
     (case createPlan_loop computeHash clock l units langs [] 0 0 of
        None \<Rightarrow> None
      | Some (bs, n) \<Rightarrow>
          Some \<lparr>batches = bs, totalUnits = n, estimatedCost = estimateCost n\<rparr>)"

text \<open>
  A pair of a unit and a language code is included in a plan when some batch for that
  language holds the unit.
\<close>

definition plan_includes :: "TranslationPlan \<Rightarrow> SourceUnit \<Rightarrow> js_string \<Rightarrow> bool" where
  "plan_includes plan unit langCode \<longleftrightarrow>
     (\<exists>b \<in> set (batches plan). targetLanguage b = langCode \<and> unit \<in> set (sourceUnits b))"

section \<open>The manual-override detector\<close>

definition isManualOverride :: "ledger \<Rightarrow> js_string \<Rightarrow> js_string \<Rightarrow> js_string \<Rightarrow> bool" where
  "isManualOverride l key langCode currentHash =
     (case getSyncStatus l key langCode of
        None \<Rightarrow> False
      | Some syncStatus \<Rightarrow>
          if status syncStatus = MANUAL then True
          else if status syncStatus = CLEAN \<and> target_hash syncStatus \<noteq> currentHash then True
          else False)"

definition markAsManualOverride ::
  "js_string \<Rightarrow> ledger \<Rightarrow> js_string \<Rightarrow> js_string \<Rightarrow> js_string \<Rightarrow> ledger"
where
  "markAsManualOverride now l key langCode targetHash =
     updateSyncStatus now l key langCode targetHash MANUAL None None"

section \<open>Transactions and bulk import\<close>

text \<open>
  \<open>transaction(fn)\<close> runs \<open>fn\<close> inside a database transaction: the writes of \<open>fn\<close> are
  committed when it returns and rolled back when it throws. The modelled ledger operations
  never throw, so the transaction returns what \<open>fn\<close> returns.
\<close>

definition transaction :: "(ledger \<Rightarrow> 'a \<times> ledger) \<Rightarrow> ledger \<Rightarrow> 'a \<times> ledger" where
  "transaction fn l = fn l"

record ImportRecord =
  import_keyPath :: js_string
  import_langCode :: js_string
  import_sourceHash :: js_string
  import_targetHash :: js_string

record ImportStats =
  imported :: nat
  skipped :: nat
  errored :: nat

text \<open>
  Modelled from the spec: \<open>importExistingTranslation\<close>, a method of the ledger class that
  the tests and the import command call and that the ledger's source file does not hold.
  It stores the source hash of the key and marks the pair \<open>CLEAN\<close> with the given target
  hash, without any provider call.
\<close>

definition importExistingTranslation ::
  "js_string \<Rightarrow> ledger \<Rightarrow> js_string \<Rightarrow> js_string \<Rightarrow> js_string \<Rightarrow> js_string \<Rightarrow> ledger"
where
  "importExistingTranslation now l key langCode srcHash tgtHash =
     updateSyncStatus now (updateSourceHash now l key srcHash None None)
       key langCode tgtHash CLEAN None None"

text \<open>
  Modelled from the spec: the loop of \<open>bulkImportTranslations\<close>, which is missing from the
  ledger's source file like \<open>importExistingTranslation\<close>. It goes through the records in
  order, skips a record whose pair is already \<open>CLEAN\<close>, imports every other record as
  \<open>importExistingTranslation\<close> does, and counts both. No modelled write can fail, so no
  record is ever counted as errored.
\<close>

fun bulkImport_loop ::
  "js_string \<Rightarrow> ImportRecord list \<Rightarrow> ImportStats \<Rightarrow> ledger \<Rightarrow> ImportStats \<times> ledger"
where
  "bulkImport_loop now [] stats l = (stats, l)"
| "bulkImport_loop now (r # rs) stats l =
     (case getSyncStatus l (import_keyPath r) (import_langCode r) of
        Some row \<Rightarrow>
          if status row = CLEAN
          then bulkImport_loop now rs (stats\<lparr>skipped := skipped stats + 1\<rparr>) l
          else bulkImport_loop now rs (stats\<lparr>imported := imported stats + 1\<rparr>)
                 (importExistingTranslation now l (import_keyPath r) (import_langCode r)
                    (import_sourceHash r) (import_targetHash r))
      | None \<Rightarrow>
          bulkImport_loop now rs (stats\<lparr>imported := imported stats + 1\<rparr>)
            (importExistingTranslation now l (import_keyPath r) (import_langCode r)
               (import_sourceHash r) (import_targetHash r)))"

text \<open>
  Modelled from the spec: \<open>bulkImportTranslations\<close>, missing from the ledger's source file.
  It applies all its records inside one transaction and returns the counts of imported,
  skipped and errored records.
\<close>

definition bulkImportTranslations ::
  "js_string \<Rightarrow> ledger \<Rightarrow> ImportRecord list \<Rightarrow> ImportStats \<times> ledger"
where
  "bulkImportTranslations now l records =
     transaction (bulkImport_loop now records \<lparr>imported = 0, skipped = 0, errored = 0\<rparr>) l"

text \<open>The pair has a stored status, and it is \<open>CLEAN\<close>.\<close>

definition pair_clean :: "ledger \<Rightarrow> js_string \<Rightarrow> js_string \<Rightarrow> bool" where
  "pair_clean l key langCode \<longleftrightarrow>
     (\<exists>row. getSyncStatus l key langCode = Some row \<and> status row = CLEAN)"

section \<open>Placeholder extraction\<close>

text \<open>
  The five regular expressions of \<open>extractPlaceholders\<close> are sequences of items, each a
  character class taken once or, with a greedy \<open>+\<close>, one or more times. A character
  class is a literal code unit, a bracket class, a negated bracket class (which also
  matches line terminators) or \<open>\d\<close>, the ASCII digits. The capture groups of the source
  patterns play no part, since only \<open>match[0]\<close> is read.
\<close>

datatype char_class =
  Lit code_unit
  | OneOf "code_unit list"
  | NoneOf "code_unit list"
  | Digit

datatype regex_item = Once char_class | Many char_class

type_synonym regex = "regex_item list"

definition ch :: "char \<Rightarrow> code_unit" where
  "ch c = of_char c"

fun class_matches :: "char_class \<Rightarrow> code_unit \<Rightarrow> bool" where
  "class_matches (Lit a) c = (c = a)"
| "class_matches (OneOf as) c = (c \<in> set as)"
| "class_matches (NoneOf as) c = (c \<notin> set as)"
| "class_matches Digit c = (ch CHR ''0'' \<le> c \<and> c \<le> ch CHR ''9'')"

text \<open>
  The backtracking matcher anchored at the start of its input: it returns the text of the
  first match in the engine's order of preference, where a greedy \<open>+\<close> first tries to take
  one more code unit and gives it back only when the rest of the pattern fails.
\<close>

fun match_here :: "regex \<Rightarrow> js_string \<Rightarrow> js_string option" where
  "match_here [] s = Some []"
| "match_here (Once cl # r) [] = None"
| "match_here (Once cl # r) (c # cs) =
     (if class_matches cl c then map_option ((#) c) (match_here r cs) else None)"
| "match_here (Many cl # r) [] = None"
| "match_here (Many cl # r) (c # cs) =
     (if class_matches cl c then
        (case match_here (Many cl # r) cs of
           Some m \<Rightarrow> Some (c # m)
         | None \<Rightarrow> map_option ((#) c) (match_here r cs))
      else None)"

text \<open>
  \<open>text.matchAll(pattern)\<close> with the \<open>g\<close> flag: the matches from left to right, each
  search starting where the previous match ended (one code unit further after an empty
  match) and trying every start position in turn.
\<close>

function match_all :: "regex \<Rightarrow> js_string \<Rightarrow> js_string list" where
  "match_all r [] = (case match_here r [] of Some m \<Rightarrow> [m] | None \<Rightarrow> [])"
| "match_all r (c # cs) =
     (case match_here r (c # cs) of
        None \<Rightarrow> match_all r cs
      | Some m \<Rightarrow> m # match_all r (drop (length m - 1) cs))"
  by pat_completeness auto
termination
  by (relation "measure (\<lambda>(r, s). length s)") auto

text \<open>The patterns, in the order of the source's array.\<close>

definition patterns :: "regex list" where
  "patterns =
     [[Once (Lit (ch CHR ''{'')), Many (NoneOf [ch CHR ''}'']), Once (Lit (ch CHR ''}''))],
      [Once (Lit (ch CHR ''{'')), Once (Lit (ch CHR ''{'')), Many (NoneOf [ch CHR ''}'']),
       Once (Lit (ch CHR ''}'')), Once (Lit (ch CHR ''}''))],
      [Once (Lit (ch CHR ''%'')), Once (OneOf (str ''sdif''))],
      [Once (Lit (ch CHR ''$'')), Once (Lit (ch CHR ''{'')), Many (NoneOf [ch CHR ''}'']),
       Once (Lit (ch CHR ''}''))],
      [Once (Lit (ch CHR ''$'')), Many Digit]]"

definition extractPlaceholders :: "js_string \<Rightarrow> js_string list" where
  "extractPlaceholders text =
     sort (foldl (\<lambda>placeholders pattern. foldl set_add placeholders (match_all pattern text))
             [] patterns)"

text \<open>
  The strings a pattern describes: one code unit of the class for each single item, a
  non-empty run of code units of the class for each repeated item.
\<close>

fun conforms :: "regex \<Rightarrow> js_string \<Rightarrow> bool" where
  "conforms [] m \<longleftrightarrow> m = []"
| "conforms (Once cl # r) m \<longleftrightarrow>
     (\<exists>c m'. m = c # m' \<and> class_matches cl c \<and> conforms r m')"
| "conforms (Many cl # r) m \<longleftrightarrow>
     (\<exists>w m'. m = w @ m' \<and> w \<noteq> [] \<and> (\<forall>c \<in> set w. class_matches cl c) \<and> conforms r m')"

section \<open>The validation pipeline\<close>

text \<open>
  \<open>ValidationWarning\<close> has the same fields as \<open>ValidationError\<close>, so one record type
  serves both. \<open>rawResponse\<close> of a translation result is opaque to the pipeline and stays
  in the extension part of the record.
\<close>

record ValidationError =
  type :: js_string
  message :: js_string
  field :: "js_string option"

type_synonym ValidationWarning = ValidationError

record ValidationResult =
  isValid :: bool
  errors :: "ValidationError list"
  warnings :: "ValidationWarning list"
  confidence :: js_number

record TranslationResult =
  result_unitId :: js_string
  translatedText :: js_string
  result_confidence :: "js_number option"

text \<open>The constructor's configuration object; every field may be omitted.\<close>

record ValidationConfig =
  preservePlaceholders :: "bool option"
  maxLengthRatio :: "js_number option"
  preventSourceLeakage :: "bool option"
  brandNames :: "js_string list option"

text \<open>
  Three functions of the JavaScript runtime are parameters of the model:
  \<open>String.prototype.toLowerCase\<close>, which follows the Unicode case tables, and the two
  renderings of a number that the length-ratio message uses, \<open>toFixed(1)\<close> and the
  conversion of a number to a string.
\<close>

record js_runtime =
  toLowerCase :: "js_string \<Rightarrow> js_string"
  toFixed1 :: "js_number \<Rightarrow> js_string"
  numberToString :: "js_number \<Rightarrow> js_string"

definition validatePlaceholders :: "SourceUnit \<Rightarrow> TranslationResult \<Rightarrow> ValidationError list" where
  "validatePlaceholders sourceUnit result =
     (let sourcePlaceholders = new_Set (placeholders sourceUnit);
          translatedPlaceholders = new_Set (extractPlaceholders (translatedText result))
      in map (\<lambda>placeholder.
                \<lparr>type = str ''MISSING_PLACEHOLDER'',
                 message = str ''Missing placeholder: '' @ placeholder,
                 field = Some placeholder\<rparr>)
           (filter (\<lambda>placeholder. placeholder \<notin> set translatedPlaceholders) sourcePlaceholders)
         @ map (\<lambda>placeholder.
                \<lparr>type = str ''EXTRA_PLACEHOLDER'',
                 message = str ''Unexpected placeholder: '' @ placeholder,
                 field = Some placeholder\<rparr>)
           (filter (\<lambda>placeholder. placeholder \<notin> set sourcePlaceholders) translatedPlaceholders))"

text \<open>
  The lengths of strings are integers below \<open>2\<^sup>5\<^sup>3\<close> and so are numbers as they stand;
  their quotient is rounded. \<open>this.config.maxLengthRatio || 3\<close> replaces an omitted, zero
  or NaN ratio by 3.
\<close>

definition validateSemantics ::
  "js_runtime \<Rightarrow> ValidationConfig \<Rightarrow> SourceUnit \<Rightarrow> TranslationResult \<Rightarrow> ValidationWarning list"
where
  "validateSemantics rt config sourceUnit result =
     (let maxRatio = (case maxLengthRatio config of
                        None \<Rightarrow> Num 3
                      | Some m \<Rightarrow> if js_falsy_number m then Num 3 else m);
          sourceLength = Num (of_nat (length (sourceText sourceUnit)));
          translatedLength = Num (of_nat (length (translatedText result)));
          ratio = js_div translatedLength sourceLength
      in if js_gt ratio maxRatio
         then [\<lparr>type = str ''LENGTH_RATIO_EXCEEDED'',
                 message = str ''Translation is '' @ toFixed1 rt ratio
                   @ str ''x longer than source (max: '' @ numberToString rt maxRatio
                   @ str ''x)'',
                 field = None\<rparr>]
         else [])"

definition detectSourceLeakage :: "js_runtime \<Rightarrow> SourceUnit \<Rightarrow> TranslationResult \<Rightarrow> bool" where
  "detectSourceLeakage rt sourceUnit result =
     (let normalizedSource = js_trim (toLowerCase rt (sourceText sourceUnit));
          normalizedTranslation = js_trim (toLowerCase rt (translatedText result))
      in if normalizedSource = normalizedTranslation then True
         else
           let sourceWords = new_Set (split_ws normalizedSource);
               translationWords = new_Set (split_ws normalizedTranslation);
               matchCount = length (filter (\<lambda>word. word \<in> set translationWords) sourceWords);
               similarity = js_div (Num (of_nat matchCount)) (Num (of_nat (length sourceWords)))
           in js_gt similarity (fl (4 / 5)))"

definition validateBrandNames ::
  "ValidationConfig \<Rightarrow> SourceUnit \<Rightarrow> TranslationResult \<Rightarrow> ValidationWarning list"
where
  "validateBrandNames config sourceUnit result =
     (let names = (case brandNames config of None \<Rightarrow> [] | Some bs \<Rightarrow> bs)
      in map (\<lambda>brandName.
                \<lparr>type = str ''MISSING_BRAND_NAME'',
                 message = str ''Brand name '' @ [0x22] @ brandName @ [0x22]
                   @ str '' not preserved in translation'',
                 field = Some brandName\<rparr>)
           (filter (\<lambda>brandName.
                js_includes (sourceText sourceUnit) brandName
                \<and> \<not> js_includes (translatedText result) brandName) names))"

text \<open>
  \<open>validate\<close>, stage by stage. The three local variables \<open>errors\<close>, \<open>warnings\<close> and
  \<open>confidence\<close> of the source are the values after each stage; the decimal literals are
  the nearest binary64 numbers.
\<close>

definition validate ::
  "js_runtime \<Rightarrow> ValidationConfig \<Rightarrow> TranslationResult \<Rightarrow> SourceUnit \<Rightarrow> ValidationResult"
where
  "validate rt config result sourceUnit =
     (if translatedText result = [] \<or> length (js_trim (translatedText result)) = 0
      then \<lparr>isValid = False,
            errors = [\<lparr>type = str ''EMPTY_TRANSLATION'',
                       message = str ''Translation is empty'', field = None\<rparr>],
            warnings = [],
            confidence = Num 0\<rparr>
      else
        let placeholderErrors =
              (if preservePlaceholders config \<noteq> Some False
               then validatePlaceholders sourceUnit result else []);
            confidence2 =
              (if 0 < length placeholderErrors then js_mul (Num 1) (fl (1 / 2)) else Num 1);
            semanticWarnings = validateSemantics rt config sourceUnit result;
            confidence3 =
              (if 0 < length semanticWarnings then js_mul confidence2 (fl (4 / 5))
               else confidence2);
            leakageDetected =
              (preventSourceLeakage config \<noteq> Some False
               \<and> detectSourceLeakage rt sourceUnit result);
            leakageErrors =
              (if leakageDetected
               then [\<lparr>type = str ''SOURCE_LEAKAGE'',
                       message = str ''Translation appears to be in source language'',
                       field = None\<rparr>]
               else []);
            confidence4 =
              (if leakageDetected then js_mul confidence3 (fl (3 / 10)) else confidence3);
            brandWarnings =
              (case brandNames config of
                 None \<Rightarrow> []
               | Some bs \<Rightarrow>
                   if 0 < length bs then validateBrandNames config sourceUnit result else []);
            all_errors = placeholderErrors @ leakageErrors;
            all_warnings = semanticWarnings @ brandWarnings
        in \<lparr>isValid = (length all_errors = 0),
            errors = all_errors,
            warnings = all_warnings,
            confidence = confidence4\<rparr>)"

section \<open>Example data\<close>

text \<open>
  A freshly initialised database, and the units and languages of the repository's property
  tests, where a unit's hash stands in for its text.
\<close>

definition empty_ledger :: ledger where
  "empty_ledger = \<lparr>source_hashes = Map.empty, sync_status = Map.empty\<rparr>"

definition ex_unit :: "string \<Rightarrow> string \<Rightarrow> SourceUnit" where
  "ex_unit k h =
     \<lparr>unitId = str k, keyPath = str k, sourceText = str h, sourceHash = str h,
      unit_context = None, placeholders = [], sourceFile = str ''test.json'',
      schemaVersion = 1\<rparr>"

definition ex_lang :: "string \<Rightarrow> string \<Rightarrow> TargetLanguage" where
  "ex_lang name code = \<lparr>language = str name, shortCode = str code\<rparr>"

text \<open>
  A ledger after one successful run: the key \<open>greeting\<close> has the stored source hash
  \<open>h1\<close> and is \<open>CLEAN\<close> for French.
\<close>

definition ex_ledger :: ledger where
  "ex_ledger =
     updateSyncStatus (str ''t1'')
       (updateSourceHash (str ''t0'') empty_ledger (str ''greeting'') (str ''h1'') None None)
       (str ''greeting'') (str ''fr'') (str ''th1'') CLEAN None None"

text \<open>
  A ledger where the pair \<open>(greeting, fr)\<close> is \<open>CLEAN\<close> although no source hash was ever
  stored for the key.
\<close>

definition ex_ledger_no_hash :: ledger where
  "ex_ledger_no_hash =
     updateSyncStatus (str ''t1'') empty_ledger
       (str ''greeting'') (str ''fr'') (str ''th1'') CLEAN None None"

definition ex_record :: ImportRecord where
  "ex_record =
     \<lparr>import_keyPath = str ''test.key'', import_langCode = str ''es'',
      import_sourceHash = str ''hash-a'', import_targetHash = str ''hash-b''\<rparr>"

text \<open>
  A runtime for examples over ASCII text: lower-casing maps \<open>A\<close>..\<open>Z\<close> to \<open>a\<close>..\<open>z\<close>,
  and the two renderings of numbers, which only appear inside a message, give the empty
  string. The default configuration is the empty object.
\<close>

definition ex_runtime :: js_runtime where
  "ex_runtime =
     \<lparr>toLowerCase = map (\<lambda>c. if 0x41 \<le> c \<and> c \<le> 0x5A then c + 0x20 else c),
      toFixed1 = (\<lambda>x. []),
      numberToString = (\<lambda>x. [])\<rparr>"

definition default_config :: ValidationConfig where
  "default_config =
     \<lparr>preservePlaceholders = None, maxLengthRatio = None, preventSourceLeakage = None,
      brandNames = None\<rparr>"

definition ex_source :: SourceUnit where
  "ex_source =
     \<lparr>unitId = str ''1'', keyPath = str ''k'', sourceText = str ''Hello {name}'',
      sourceHash = str ''h'', unit_context = None, placeholders = [str ''{name}''],
      sourceFile = str ''f'', schemaVersion = 1\<rparr>"

definition ex_translation :: "string \<Rightarrow> TranslationResult" where
  "ex_translation t =
     \<lparr>result_unitId = str ''1'', translatedText = str t, result_confidence = Some (Num 1)\<rparr>"

section \<open>Properties of the planner\<close>

lemma detectChanges_filter:
  "detectChanges l units targetLang = filter (needsTranslation l targetLang) units"
  by (induction units) simp_all

lemma make_batch_sel [simp]:
  "sourceUnits (make_batch computeHash now units targetLang batchSize i)
     = take batchSize (drop i units)"
  "targetLanguage (make_batch computeHash now units targetLang batchSize i) = targetLang"
  "deduplicationKey (make_batch computeHash now units targetLang batchSize i)
     = computeHash (join_with (str ''_'')
         (map sourceHash (take batchSize (drop i units))))"
  by (simp_all add: make_batch_def Let_def)

lemma createBatches_from_total:
  "batchSize \<noteq> 0 \<Longrightarrow>
   \<exists>bs. createBatches_from computeHash clock tick units targetLang batchSize i = Some bs"
proof (induction computeHash clock tick units targetLang batchSize i
    rule: createBatches_from.induct)
  case (1 computeHash clock tick units targetLang batchSize i)
  show ?case
  proof (cases "i < length units")
    case True
    with 1 obtain bs where
      "createBatches_from computeHash clock (Suc tick) units targetLang batchSize (i + batchSize)
       = Some bs"
      by blast
    with True 1(2) show ?thesis
      by (subst createBatches_from.simps) simp
  next
    case False
    then show ?thesis
      by (subst createBatches_from.simps) simp
  qed
qed

lemma createBatches_from_nth:
  "createBatches_from computeHash clock tick units targetLang batchSize i = Some bs \<Longrightarrow>
   k < length bs \<Longrightarrow>
   bs ! k = make_batch computeHash (clock (tick + k)) units targetLang batchSize (i + k * batchSize)"
proof (induction computeHash clock tick units targetLang batchSize i arbitrary: bs k
    rule: createBatches_from.induct)
  case (1 computeHash clock tick units targetLang batchSize i)
  note eq = "1.prems"(1)
  show ?case
  proof (cases "i < length units \<and> batchSize \<noteq> 0")
    case True
    with eq obtain rest where
      rest: "createBatches_from computeHash clock (Suc tick) units targetLang batchSize
               (i + batchSize) = Some rest"
      and bs: "bs = make_batch computeHash (clock tick) units targetLang batchSize i # rest"
      by (subst (asm) createBatches_from.simps) auto
    show ?thesis
    proof (cases k)
      case 0
      with bs show ?thesis by simp
    next
      case (Suc k')
      with "1.prems"(2) bs have "k' < length rest" by simp
      with "1.IH" True rest
      have "rest ! k' = make_batch computeHash (clock (Suc tick + k')) units targetLang batchSize
                          (i + batchSize + k' * batchSize)"
        by blast
      with Suc bs show ?thesis by (simp add: add.assoc)
    qed
  next
    case False
    with eq "1.prems"(2) show ?thesis
      by (subst (asm) createBatches_from.simps) (auto split: if_splits)
  qed
qed

lemma createBatches_from_length:
  "createBatches_from computeHash clock tick units targetLang batchSize i = Some bs \<Longrightarrow>
   k < length bs \<longleftrightarrow> i + k * batchSize < length units"
proof (induction computeHash clock tick units targetLang batchSize i arbitrary: bs k
    rule: createBatches_from.induct)
  case (1 computeHash clock tick units targetLang batchSize i)
  note eq = "1.prems"(1)
  show ?case
  proof (cases "i < length units \<and> batchSize \<noteq> 0")
    case True
    with eq obtain rest where
      rest: "createBatches_from computeHash clock (Suc tick) units targetLang batchSize
               (i + batchSize) = Some rest"
      and bs: "bs = make_batch computeHash (clock tick) units targetLang batchSize i # rest"
      by (subst (asm) createBatches_from.simps) auto
    show ?thesis
    proof (cases k)
      case 0
      with bs True show ?thesis by simp
    next
      case (Suc k')
      from "1.IH" True rest
      have "k' < length rest \<longleftrightarrow> i + batchSize + k' * batchSize < length units"
        by blast
      with Suc bs show ?thesis by (simp add: add.assoc)
    qed
  next
    case False
    with eq show ?thesis
      by (subst (asm) createBatches_from.simps) (auto split: if_splits)
  qed
qed

lemma createBatches_from_concat:
  "createBatches_from computeHash clock tick units targetLang batchSize i = Some bs \<Longrightarrow>
   concat (map sourceUnits bs) = drop i units"
proof (induction computeHash clock tick units targetLang batchSize i arbitrary: bs
    rule: createBatches_from.induct)
  case (1 computeHash clock tick units targetLang batchSize i)
  note eq = "1.prems"(1)
  show ?case
  proof (cases "i < length units \<and> batchSize \<noteq> 0")
    case True
    with eq obtain rest where
      rest: "createBatches_from computeHash clock (Suc tick) units targetLang batchSize
               (i + batchSize) = Some rest"
      and bs: "bs = make_batch computeHash (clock tick) units targetLang batchSize i # rest"
      by (subst (asm) createBatches_from.simps) auto
    from "1.IH" True rest have "concat (map sourceUnits rest) = drop (i + batchSize) units"
      by blast
    moreover have "take batchSize (drop i units) @ drop (i + batchSize) units = drop i units"
      by (metis add.commute append_take_drop_id drop_drop)
    ultimately show ?thesis using bs
      by simp
  next
    case False
    with eq show ?thesis
      by (subst (asm) createBatches_from.simps) (auto split: if_splits)
  qed
qed

lemma createBatches_total:
  "\<exists>bs. createBatches computeHash clock tick units targetLang 20 = Some bs"
proof -
  have "(20 :: nat) \<noteq> 0" by simp
  then show ?thesis
    unfolding createBatches_def by (rule createBatches_from_total)
qed

lemma createBatches_Nil [simp]:
  "createBatches computeHash clock tick [] targetLang batchSize = Some []"
  by (simp add: createBatches_def createBatches_from.simps)

lemma createBatches_concat:
  "createBatches computeHash clock tick units targetLang batchSize = Some bs \<Longrightarrow>
   concat (map sourceUnits bs) = units"
  using createBatches_from_concat [of computeHash clock tick units targetLang batchSize 0 bs]
  by (simp add: createBatches_def)

lemma createBatches_nth:
  "createBatches computeHash clock tick units targetLang batchSize = Some bs \<Longrightarrow>
   k < length bs \<Longrightarrow>
   bs ! k = make_batch computeHash (clock (tick + k)) units targetLang batchSize (k * batchSize)"
  using createBatches_from_nth [of computeHash clock tick units targetLang batchSize 0 bs k]
  by (simp add: createBatches_def)

lemma createBatches_length:
  "createBatches computeHash clock tick units targetLang batchSize = Some bs \<Longrightarrow>
   k < length bs \<longleftrightarrow> k * batchSize < length units"
  using createBatches_from_length [of computeHash clock tick units targetLang batchSize 0 bs k]
  by (simp add: createBatches_def)

lemma createBatches_member:
  assumes "createBatches computeHash clock tick units targetLang batchSize = Some bs"
    and "b \<in> set bs"
  shows "targetLanguage b = targetLang"
    and "set (sourceUnits b) \<subseteq> set units"
proof -
  from assms(2) obtain k where k: "k < length bs" "b = bs ! k"
    by (auto simp: in_set_conv_nth)
  with createBatches_nth [OF assms(1)] have
    b: "b = make_batch computeHash (clock (tick + k)) units targetLang batchSize (k * batchSize)"
    by simp
  then show "targetLanguage b = targetLang" by simp
  from b have "sourceUnits b = take batchSize (drop (k * batchSize) units)" by simp
  then show "set (sourceUnits b) \<subseteq> set units"
    by (metis set_take_subset set_drop_subset subset_trans)
qed

lemma createPlan_loop_result:
  "createPlan_loop computeHash clock l units langs bs n tick = Some (bs', n') \<Longrightarrow>
   \<exists>bss. bs' = bs @ concat bss
     \<and> n' = n + sum_list (map (\<lambda>lang. length (detectChanges l units (shortCode lang))) langs)
     \<and> list_all2 (\<lambda>lang lbs. \<exists>t.
           createBatches computeHash clock t (detectChanges l units (shortCode lang))
             (shortCode lang) 20 = Some lbs) langs bss"
proof (induction langs arbitrary: bs n tick)
  case Nil
  then show ?case by simp
next
  case (Cons lang langs)
  let ?sel = "detectChanges l units (shortCode lang)"
  obtain lbs where lbs: "createBatches computeHash clock tick ?sel (shortCode lang) 20 = Some lbs"
    using createBatches_total by blast
  show ?case
  proof (cases "?sel = []")
    case True
    with Cons.prems have
      "createPlan_loop computeHash clock l units langs bs n tick = Some (bs', n')"
      by simp
    from Cons.IH [OF this] obtain bss where
      bss: "bs' = bs @ concat bss"
        "n' = n + sum_list (map (\<lambda>lang. length (detectChanges l units (shortCode lang))) langs)"
        "list_all2 (\<lambda>lang lbs. \<exists>t.
           createBatches computeHash clock t (detectChanges l units (shortCode lang))
             (shortCode lang) 20 = Some lbs) langs bss"
      by blast
    have "createBatches computeHash clock 0 ?sel (shortCode lang) 20 = Some []"
      using True by simp
    with bss True show ?thesis
      by (intro exI [of _ "[] # bss"]) auto
  next
    case False
    with Cons.prems lbs have
      "createPlan_loop computeHash clock l units langs (bs @ lbs) (n + length ?sel)
         (tick + length lbs) = Some (bs', n')"
      by (simp add: Let_def)
    from Cons.IH [OF this] obtain bss where
      bss: "bs' = (bs @ lbs) @ concat bss"
        "n' = n + length ?sel
           + sum_list (map (\<lambda>lang. length (detectChanges l units (shortCode lang))) langs)"
        "list_all2 (\<lambda>lang lbs. \<exists>t.
           createBatches computeHash clock t (detectChanges l units (shortCode lang))
             (shortCode lang) 20 = Some lbs) langs bss"
      by blast
    with lbs show ?thesis
      by (intro exI [of _ "lbs # bss"]) auto
  qed
qed

lemma createPlan_loop_total:
  "\<exists>r. createPlan_loop computeHash clock l units langs bs n tick = Some r"
proof (induction langs arbitrary: bs n tick)
  case Nil
  show ?case by simp
next
  case (Cons lang langs)
  obtain lbs where
    "createBatches computeHash clock tick (detectChanges l units (shortCode lang))
       (shortCode lang) 20 = Some lbs"
    using createBatches_total by blast
  with Cons show ?case
    by (simp add: Let_def)
qed

lemma createPlan_result:
  "\<exists>bss. createPlan computeHash clock l units langs =
       Some \<lparr>batches = concat bss,
             totalUnits = sum_list (map (\<lambda>lang. length (detectChanges l units (shortCode lang))) langs),
             estimatedCost = estimateCost
               (sum_list (map (\<lambda>lang. length (detectChanges l units (shortCode lang))) langs))\<rparr>
     \<and> list_all2 (\<lambda>lang lbs. \<exists>t.
           createBatches computeHash clock t (detectChanges l units (shortCode lang))
             (shortCode lang) 20 = Some lbs) langs bss"
proof -
  obtain bs' n' where r: "createPlan_loop computeHash clock l units langs [] 0 0 = Some (bs', n')"
    using createPlan_loop_total by (metis surj_pair)
  from createPlan_loop_result [OF r] r show ?thesis
    by (auto simp: createPlan_def)
qed

lemma batches_includes:
  assumes "list_all2 (\<lambda>lang lbs. \<exists>t.
           createBatches computeHash clock t (detectChanges l units (shortCode lang))
             (shortCode lang) 20 = Some lbs) langs bss"
  shows "(\<exists>b \<in> set (concat bss). targetLanguage b = code \<and> u \<in> set (sourceUnits b))
     \<longleftrightarrow> (\<exists>lang \<in> set langs. shortCode lang = code) \<and> u \<in> set units
          \<and> needsTranslation l code u"
  using assms
proof (induction langs bss rule: list_all2_induct)
  case Nil
  show ?case by simp
next
  case (Cons lang langs lbs bss)
  let ?sel = "detectChanges l units (shortCode lang)"
  from Cons.hyps(1) obtain t where
    lbs: "createBatches computeHash clock t ?sel (shortCode lang) 20 = Some lbs"
    by blast
  have here: "(\<exists>b \<in> set lbs. targetLanguage b = code \<and> u \<in> set (sourceUnits b))
     \<longleftrightarrow> shortCode lang = code \<and> u \<in> set units \<and> needsTranslation l code u"
  proof
    assume "\<exists>b \<in> set lbs. targetLanguage b = code \<and> u \<in> set (sourceUnits b)"
    then obtain b where b: "b \<in> set lbs" "targetLanguage b = code" "u \<in> set (sourceUnits b)"
      by blast
    from createBatches_member [OF lbs b(1)] b have "shortCode lang = code" "u \<in> set ?sel"
      by auto
    then show "shortCode lang = code \<and> u \<in> set units \<and> needsTranslation l code u"
      by (simp add: detectChanges_filter)
  next
    assume a: "shortCode lang = code \<and> u \<in> set units \<and> needsTranslation l code u"
    then have "u \<in> set (concat (map sourceUnits lbs))"
      by (simp only: createBatches_concat [OF lbs]) (simp add: detectChanges_filter)
    then obtain b where b: "b \<in> set lbs" "u \<in> set (sourceUnits b)"
      by auto
    with createBatches_member(1) [OF lbs b(1)] a
    show "\<exists>b \<in> set lbs. targetLanguage b = code \<and> u \<in> set (sourceUnits b)"
      by auto
  qed
  have "(\<exists>b \<in> set (concat (lbs # bss)). targetLanguage b = code \<and> u \<in> set (sourceUnits b))
    \<longleftrightarrow> (\<exists>b \<in> set lbs. targetLanguage b = code \<and> u \<in> set (sourceUnits b))
       \<or> (\<exists>b \<in> set (concat bss). targetLanguage b = code \<and> u \<in> set (sourceUnits b))"
    by auto
  with here Cons.IH show ?case
    by auto
qed

text \<open>
  What \<open>getSourceHash\<close> reports for a key that has a row: the stored hash, unless it is
  the empty string.
\<close>

lemma getSourceHash_row:
  "source_hashes l key = Some row \<Longrightarrow>
   getSourceHash l key = (if value_hash row = [] then None else Some (value_hash row))"
  by (simp add: getSourceHash_def)

lemma needsTranslation_iff:
  "needsTranslation l code unit \<longleftrightarrow>
     getSyncStatus l (keyPath unit) code = None
     \<or> (\<exists>row. getSyncStatus l (keyPath unit) code = Some row \<and> status row \<noteq> MANUAL
          \<and> (getSourceHash l (keyPath unit) \<noteq> Some (sourceHash unit)
               \<or> status row = FAILED \<or> status row = DIRTY))"
  by (auto simp: needsTranslation_def Let_def split: option.splits)

lemma createPlan_includes:
  "\<exists>plan. createPlan computeHash clock l units langs = Some plan
     \<and> (\<forall>unit code. plan_includes plan unit code \<longleftrightarrow>
           unit \<in> set units \<and> (\<exists>lang \<in> set langs. shortCode lang = code)
           \<and> needsTranslation l code unit)"
proof -
  from createPlan_result [of computeHash clock l units langs] obtain bss plan where
    plan: "createPlan computeHash clock l units langs = Some plan" "batches plan = concat bss"
    and bss: "list_all2 (\<lambda>lang lbs. \<exists>t.
           createBatches computeHash clock t (detectChanges l units (shortCode lang))
             (shortCode lang) 20 = Some lbs) langs bss"
    by force
  from batches_includes [OF bss] plan show ?thesis
    by (auto simp: plan_includes_def)
qed

lemma ex_ledger_sync:
  "getSyncStatus ex_ledger k c =
     (if k = str ''greeting'' \<and> c = str ''fr''
      then Some \<lparr>key_path = str ''greeting'', lang_code = str ''fr'', target_hash = str ''th1'',
                 status = CLEAN, model_fingerprint = None, prompt_version = None,
                 updated_at = str ''t1''\<rparr>
      else None)"
  by (simp add: ex_ledger_def getSyncStatus_def updateSyncStatus_def updateSourceHash_def
      empty_ledger_def)

lemma ex_ledger_hash:
  "getSourceHash ex_ledger k = (if k = str ''greeting'' then Some (str ''h1'') else None)"
  by (simp add: ex_ledger_def getSourceHash_def updateSyncStatus_def updateSourceHash_def
      empty_ledger_def str_def)

lemma isManualOverride_iff:
  "isManualOverride l key langCode h \<longleftrightarrow>
     (\<exists>row. getSyncStatus l key langCode = Some row
        \<and> (status row = MANUAL \<or> (status row = CLEAN \<and> target_hash row \<noteq> h)))"
  by (auto simp: isManualOverride_def split: option.splits)

lemma getSyncStatus_markAsManualOverride:
  "getSyncStatus (markAsManualOverride now l key langCode h) key langCode =
     Some \<lparr>key_path = key, lang_code = langCode, target_hash = h, status = MANUAL,
           model_fingerprint = None, prompt_version = None, updated_at = now\<rparr>"
  by (simp add: markAsManualOverride_def updateSyncStatus_def getSyncStatus_def)

lemma createBatches_same_length:
  assumes "createBatches h c t units lang n = Some bs"
    and "createBatches h' c' t' units lang' n = Some bs'"
  shows "length bs = length bs'"
proof -
  have "k < length bs \<longleftrightarrow> k < length bs'" for k
    using createBatches_length [OF assms(1)] createBatches_length [OF assms(2)] by simp
  then show ?thesis
    by (metis less_irrefl linorder_neqE_nat)
qed

lemma createBatches_units_indep:
  assumes "createBatches h c t units lang n = Some bs"
    and "createBatches h' c' t' units lang n = Some bs'"
  shows "map sourceUnits bs = map sourceUnits bs'"
    and "map targetLanguage bs = map targetLanguage bs'"
proof -
  have len: "length bs = length bs'"
    using assms by (rule createBatches_same_length)
  have "sourceUnits (bs ! k) = sourceUnits (bs' ! k) \<and> targetLanguage (bs ! k) = targetLanguage (bs' ! k)"
    if "k < length bs" for k
    using that len createBatches_nth [OF assms(1), of k] createBatches_nth [OF assms(2), of k]
    by simp
  with len show "map sourceUnits bs = map sourceUnits bs'"
    and "map targetLanguage bs = map targetLanguage bs'"
    by (simp_all add: list_eq_iff_nth_eq)
qed

lemma plan_batches_units_indep:
  assumes "list_all2 (\<lambda>lang lbs. \<exists>t.
           createBatches h c t (detectChanges l units (shortCode lang))
             (shortCode lang) 20 = Some lbs) langs bss"
    and "list_all2 (\<lambda>lang lbs. \<exists>t.
           createBatches h' c' t (detectChanges l units (shortCode lang))
             (shortCode lang) 20 = Some lbs) langs bss'"
  shows "map sourceUnits (concat bss) = map sourceUnits (concat bss')
     \<and> map targetLanguage (concat bss) = map targetLanguage (concat bss')"
  using assms
proof (induction langs bss arbitrary: bss' rule: list_all2_induct)
  case Nil
  then show ?case by simp
next
  case (Cons lang langs lbs bss)
  from Cons.prems obtain lbs' rest' where
    bss': "bss' = lbs' # rest'"
    and lbs': "\<exists>t. createBatches h' c' t (detectChanges l units (shortCode lang))
             (shortCode lang) 20 = Some lbs'"
    and rest': "list_all2 (\<lambda>lang lbs. \<exists>t.
           createBatches h' c' t (detectChanges l units (shortCode lang))
             (shortCode lang) 20 = Some lbs) langs rest'"
    by (auto simp: list_all2_Cons1)
  from Cons.hyps(1) lbs' obtain t t' where
    "createBatches h c t (detectChanges l units (shortCode lang)) (shortCode lang) 20 = Some lbs"
    "createBatches h' c' t' (detectChanges l units (shortCode lang)) (shortCode lang) 20 = Some lbs'"
    by blast
  then have
    "map sourceUnits lbs = map sourceUnits lbs'" "map targetLanguage lbs = map targetLanguage lbs'"
    by (rule createBatches_units_indep)+
  with Cons.IH [OF rest'] bss' show ?case
    by simp
qed

lemma createBatches_sizes:
  assumes "createBatches h c t units lang 20 = Some bs" and "j < length bs"
  shows "targetLanguage (bs ! j) = lang"
    and "sourceUnits (bs ! j) = take 20 (drop (j * 20) units)"
    and "1 \<le> length (sourceUnits (bs ! j))"
    and "length (sourceUnits (bs ! j)) \<le> 20"
    and "Suc j < length bs \<Longrightarrow> length (sourceUnits (bs ! j)) = 20"
    and "deduplicationKey (bs ! j) =
           h (join_with (str ''_'') (map sourceHash (sourceUnits (bs ! j))))"
proof -
  note nth = createBatches_nth [OF assms]
  from nth show "targetLanguage (bs ! j) = lang" by simp
  from nth show u: "sourceUnits (bs ! j) = take 20 (drop (j * 20) units)" by simp
  from nth show "deduplicationKey (bs ! j) =
           h (join_with (str ''_'') (map sourceHash (sourceUnits (bs ! j))))" by simp
  from assms(2) createBatches_length [OF assms(1), of j] have "j * 20 < length units"
    by simp
  with u show "1 \<le> length (sourceUnits (bs ! j))" by simp
  from u show "length (sourceUnits (bs ! j)) \<le> 20" by simp
  show "length (sourceUnits (bs ! j)) = 20" if "Suc j < length bs"
  proof -
    from that createBatches_length [OF assms(1), of "Suc j"] have "Suc j * 20 < length units"
      by simp
    with u show ?thesis by simp
  qed
qed

section \<open>Properties of bulk import\<close>

lemma pair_clean_import:
  "pair_clean (importExistingTranslation now l key langCode sh th) key' langCode' \<longleftrightarrow>
     (key' = key \<and> langCode' = langCode) \<or> pair_clean l key' langCode'"
  by (auto simp: pair_clean_def importExistingTranslation_def updateSyncStatus_def
      updateSourceHash_def getSyncStatus_def)

lemma bulkImport_loop_step:
  "bulkImport_loop now (r # rs) stats l =
     (if pair_clean l (import_keyPath r) (import_langCode r)
      then bulkImport_loop now rs (stats\<lparr>skipped := skipped stats + 1\<rparr>) l
      else bulkImport_loop now rs (stats\<lparr>imported := imported stats + 1\<rparr>)
             (importExistingTranslation now l (import_keyPath r) (import_langCode r)
                (import_sourceHash r) (import_targetHash r)))"
  by (auto simp: pair_clean_def split: option.splits)

declare bulkImport_loop.simps(2) [simp del]

lemma bulkImport_loop_keeps_clean:
  "pair_clean l key langCode \<Longrightarrow>
   pair_clean (snd (bulkImport_loop now rs stats l)) key langCode
   \<and> sync_status (snd (bulkImport_loop now rs stats l)) (key, langCode)
       = sync_status l (key, langCode)"
proof (induction rs arbitrary: stats l)
  case Nil
  then show ?case by simp
next
  case (Cons r rs)
  show ?case
  proof (cases "pair_clean l (import_keyPath r) (import_langCode r)")
    case True
    with Cons show ?thesis
      by (simp add: bulkImport_loop_step)
  next
    case False
    let ?l' = "importExistingTranslation now l (import_keyPath r) (import_langCode r)
                (import_sourceHash r) (import_targetHash r)"
    from False Cons.prems have ne: "(import_keyPath r, import_langCode r) \<noteq> (key, langCode)"
      by auto
    then have same: "sync_status ?l' (key, langCode) = sync_status l (key, langCode)"
      by (auto simp: importExistingTranslation_def updateSyncStatus_def updateSourceHash_def)
    from Cons.prems have "pair_clean ?l' key langCode"
      by (simp add: pair_clean_import)
    from Cons.IH [OF this] same False show ?thesis
      by (simp add: bulkImport_loop_step)
  qed
qed

lemma bulkImport_loop_makes_clean:
  "r \<in> set rs \<Longrightarrow>
   pair_clean (snd (bulkImport_loop now rs stats l)) (import_keyPath r) (import_langCode r)"
proof (induction rs arbitrary: stats l)
  case Nil
  then show ?case by simp
next
  case (Cons r' rs)
  let ?l' = "importExistingTranslation now l (import_keyPath r') (import_langCode r')
                (import_sourceHash r') (import_targetHash r')"
  show ?case
  proof (cases "r = r'")
    case True
    show ?thesis
    proof (cases "pair_clean l (import_keyPath r') (import_langCode r')")
      case c: True
      with True bulkImport_loop_keeps_clean [OF c] show ?thesis
        by (simp add: bulkImport_loop_step)
    next
      case False
      have "pair_clean ?l' (import_keyPath r') (import_langCode r')"
        by (simp add: pair_clean_import)
      from bulkImport_loop_keeps_clean [OF this] True False show ?thesis
        by (simp add: bulkImport_loop_step)
    qed
  next
    case False
    with Cons.prems have "r \<in> set rs" by simp
    from Cons.IH [OF this] show ?thesis
      by (simp add: bulkImport_loop_step)
  qed
qed

lemma bulkImport_loop_all_clean:
  "\<forall>r \<in> set rs. pair_clean l (import_keyPath r) (import_langCode r) \<Longrightarrow>
   bulkImport_loop now rs stats l = (stats\<lparr>skipped := skipped stats + length rs\<rparr>, l)"
  by (induction rs arbitrary: stats) (simp_all add: bulkImport_loop_step)

lemma bulkImport_loop_counts:
  "imported (fst (bulkImport_loop now rs stats l)) + skipped (fst (bulkImport_loop now rs stats l))
     = imported stats + skipped stats + length rs
   \<and> errored (fst (bulkImport_loop now rs stats l)) = errored stats"
  by (induction rs arbitrary: stats l) (simp_all add: bulkImport_loop_step)

section \<open>Properties of placeholder extraction\<close>

lemma set_foldl_set_add:
  "set (foldl set_add acc xs) = set acc \<union> set xs"
  by (induction xs arbitrary: acc) (auto simp: set_add_def)

lemma distinct_foldl_set_add:
  "distinct acc \<Longrightarrow> distinct (foldl set_add acc xs)"
  by (induction xs arbitrary: acc) (auto simp: set_add_def)

lemma set_foldl_patterns:
  "set (foldl (\<lambda>acc p. foldl set_add acc (f p)) acc ps) = set acc \<union> (\<Union>p \<in> set ps. set (f p))"
  by (induction ps arbitrary: acc) (auto simp: set_foldl_set_add)

lemma distinct_foldl_patterns:
  "distinct acc \<Longrightarrow> distinct (foldl (\<lambda>acc p. foldl set_add acc (f p)) acc ps)"
  by (induction ps arbitrary: acc) (auto simp: distinct_foldl_set_add)

lemma new_Set_props:
  "set (new_Set xs) = set xs" "distinct (new_Set xs)"
  by (simp_all add: new_Set_def set_foldl_set_add distinct_foldl_set_add)

lemma match_here_prefix:
  "match_here r s = Some m \<Longrightarrow> prefix m s"
  by (induction r s arbitrary: m rule: match_here.induct)
    (auto split: if_splits option.splits)

lemma match_here_conforms:
  "match_here r s = Some m \<Longrightarrow> conforms r m"
proof (induction r s arbitrary: m rule: match_here.induct)
  case (5 cl r c cs)
  show ?case
  proof (cases "match_here (Many cl # r) cs")
    case None
    with 5 show ?thesis
      by (auto split: if_splits intro: exI [of _ "[c]"])
  next
    case (Some m')
    with 5 have m: "m = c # m'" and c: "class_matches cl c" and "conforms (Many cl # r) m'"
      by (auto split: if_splits)
    then obtain w m'' where "m' = w @ m''" "w \<noteq> []" "\<forall>c \<in> set w. class_matches cl c"
      "conforms r m''"
      by auto
    with m c have "m = (c # w) @ m''" "c # w \<noteq> []" "\<forall>a \<in> set (c # w). class_matches cl a"
      by auto
    with \<open>conforms r m''\<close> show ?thesis
      unfolding conforms.simps by blast
  qed
qed (auto split: if_splits)

lemma match_all_sublist:
  "m \<in> set (match_all r s) \<Longrightarrow> sublist m s \<and> conforms r m"
proof (induction r s rule: match_all.induct)
  case (1 r)
  then have "match_here r [] = Some m"
    by (auto split: option.splits)
  then show ?case
    by (auto dest: match_here_prefix match_here_conforms)
next
  case (2 r c cs)
  show ?case
  proof (cases "match_here r (c # cs)")
    case None
    with 2 have "sublist m cs \<and> conforms r m" by simp
    then show ?thesis by (simp add: sublist_Cons_right)
  next
    case (Some m')
    show ?thesis
    proof (cases "m = m'")
      case True
      with Some show ?thesis
        by (auto dest: match_here_prefix match_here_conforms)
    next
      case False
      with 2 Some have "sublist m (drop (length m' - 1) cs) \<and> conforms r m" by simp
      moreover have "sublist (drop (length m' - 1) cs) (c # cs)"
        by (simp add: sublist_Cons_right)
      ultimately show ?thesis
        using sublist_order.order_trans by blast
    qed
  qed
qed

text \<open>
  The matcher finds a match at a position exactly when some prefix of the input there has
  the form of the pattern.
\<close>

lemma match_here_complete:
  "conforms r m \<Longrightarrow> prefix m s \<Longrightarrow> \<exists>m'. match_here r s = Some m'"
proof (induction r s arbitrary: m rule: match_here.induct)
  case (1 s)
  show ?case by simp
next
  case (2 cl r)
  then show ?case by auto
next
  case (3 cl r c cs)
  from "3.prems" obtain m1 where m: "m = c # m1" "class_matches cl c" "conforms r m1" "prefix m1 cs"
    by auto
  with "3.IH" obtain m' where "match_here r cs = Some m'"
    by blast
  with m show ?case by simp
next
  case (4 cl r)
  then show ?case by auto
next
  case (5 cl r c cs)
  from "5.prems"(1) obtain w m1 where
    w: "m = w @ m1" "w \<noteq> []" "\<forall>a \<in> set w. class_matches cl a" "conforms r m1"
    by auto
  then obtain w' where w': "w = c # w'" and c: "class_matches cl c"
    using "5.prems"(2) by (cases w) auto
  show ?case
  proof (cases "match_here (Many cl # r) cs")
    case (Some m')
    with c show ?thesis by simp
  next
    case None
    have "w' = []"
    proof (rule ccontr)
      assume "w' \<noteq> []"
      with w w' have "conforms (Many cl # r) (w' @ m1)"
        by auto
      moreover from "5.prems"(2) w w' have "prefix (w' @ m1) cs"
        by simp
      ultimately have "\<exists>m'. match_here (Many cl # r) cs = Some m'"
        using "5.IH"(1) c by blast
      with None show False by simp
    qed
    with w w' "5.prems"(2) have "prefix m1 cs"
      by simp
    with "5.IH"(2) c None w(4) obtain m' where "match_here r cs = Some m'"
      by blast
    with c None show ?thesis by simp
  qed
qed

lemma match_here_iff:
  "(\<exists>m. match_here r s = Some m) \<longleftrightarrow> (\<exists>m. prefix m s \<and> conforms r m)"
  using match_here_complete match_here_prefix match_here_conforms by blast

section \<open>Properties of the validation pipeline\<close>

lemma dropWhile_Nil_iff: "dropWhile P xs = [] \<longleftrightarrow> (\<forall>x \<in> set xs. P x)"
  by (induction xs) auto

lemma js_trim_Nil_iff: "js_trim s = [] \<longleftrightarrow> (\<forall>c \<in> set s. is_js_space c)"
proof
  assume "js_trim s = []"
  then have "\<forall>x \<in> set (dropWhile is_js_space s). is_js_space x"
    by (simp add: js_trim_def dropWhile_Nil_iff)
  then have "dropWhile is_js_space s = []"
    by (metis hd_dropWhile list.set_sel(1))
  then show "\<forall>c \<in> set s. is_js_space c"
    by (simp add: dropWhile_Nil_iff)
next
  assume "\<forall>c \<in> set s. is_js_space c"
  then have "dropWhile is_js_space s = []"
    by (simp add: dropWhile_Nil_iff)
  then show "js_trim s = []"
    by (simp only: js_trim_def rev.simps dropWhile.simps)
qed

lemma blank_iff:
  "translatedText result = [] \<or> length (js_trim (translatedText result)) = 0
   \<longleftrightarrow> (\<forall>c \<in> set (translatedText result). is_js_space c)"
  by (auto simp: js_trim_Nil_iff)

lemma fl_literals:
  "fl (1 / 2) = Num (1 / 2)"
  "fl (4 / 5) = Num (3602879701896397 / 4503599627370496)"
  "fl (3 / 10) = Num (5404319552844595 / 18014398509481984)"
  by code_simp+

lemma js_mul_by_one:
  "js_mul (Num 1) (Num 1) = Num 1"
  "js_mul (Num 1) (Num (1 / 2)) = Num (1 / 2)"
  "js_mul (Num (1 / 2)) (Num 1) = Num (1 / 2)"
  "js_mul (Num 1) (Num (3602879701896397 / 4503599627370496))
     = Num (3602879701896397 / 4503599627370496)"
  "js_mul (Num (3602879701896397 / 4503599627370496)) (Num 1)
     = Num (3602879701896397 / 4503599627370496)"
  "js_mul (Num (3602879701896397 / 9007199254740992)) (Num 1)
     = Num (3602879701896397 / 9007199254740992)"
  "js_mul (Num 1) (Num (5404319552844595 / 18014398509481984))
     = Num (5404319552844595 / 18014398509481984)"
  by code_simp+

lemma js_mul_products:
  "js_mul (Num (1 / 2)) (Num (3602879701896397 / 4503599627370496))
     = Num (3602879701896397 / 9007199254740992)"
  "js_mul (Num (1 / 2)) (Num (5404319552844595 / 18014398509481984))
     = Num (5404319552844595 / 36028797018963968)"
  "js_mul (Num (3602879701896397 / 4503599627370496))
     (Num (5404319552844595 / 18014398509481984))
     = Num (1080863910568919 / 4503599627370496)"
  "js_mul (Num (3602879701896397 / 9007199254740992))
     (Num (5404319552844595 / 18014398509481984))
     = Num (1080863910568919 / 9007199254740992)"
  "js_mul (Num (1 / 2)) (Num (1080863910568919 / 4503599627370496))
     = Num (1080863910568919 / 9007199254740992)"
  by code_simp+

lemma confidence_table:
  "(let c2 = (if pe then js_mul (Num 1) (fl (1 / 2)) else Num 1);
        c3 = (if sw then js_mul c2 (fl (4 / 5)) else c2);
        c4 = (if lk then js_mul c3 (fl (3 / 10)) else c3)
    in \<exists>q. c4 = Num q \<and> 0 \<le> q \<and> q \<le> 1)"
  unfolding Let_def
  by (cases pe; cases sw; cases lk;
      simp only: fl_literals js_mul_by_one js_mul_products if_True if_False
        js_number.inject simp_thms; simp)

lemma confidence_halved:
  "(let c2 = js_mul (Num 1) (fl (1 / 2));
        c3 = (if sw then js_mul c2 (fl (4 / 5)) else c2);
        c4 = (if lk then js_mul c3 (fl (3 / 10)) else c3);
        d3 = (if sw then js_mul (Num 1) (fl (4 / 5)) else Num 1);
        d4 = (if lk then js_mul d3 (fl (3 / 10)) else d3)
    in c4 = js_mul (fl (1 / 2)) d4)"
  unfolding Let_def
  by (cases sw; cases lk;
      simp only: fl_literals js_mul_by_one js_mul_products if_True if_False
        js_number.inject simp_thms)

lemma type_names_distinct:
  "str ''MISSING_PLACEHOLDER'' \<noteq> str ''EXTRA_PLACEHOLDER''"
  "str ''MISSING_PLACEHOLDER'' \<noteq> str ''SOURCE_LEAKAGE''"
  "str ''EXTRA_PLACEHOLDER'' \<noteq> str ''SOURCE_LEAKAGE''"
  "str ''LENGTH_RATIO_EXCEEDED'' \<noteq> str ''MISSING_BRAND_NAME''"
  by (simp_all add: str_def)

lemma validatePlaceholders_types:
  "e \<in> set (validatePlaceholders sourceUnit result) \<Longrightarrow>
   (type e = str ''MISSING_PLACEHOLDER'' \<or> type e = str ''EXTRA_PLACEHOLDER'')
   \<and> field e \<noteq> None"
  by (auto simp: validatePlaceholders_def Let_def)

lemma count_distinct:
  "distinct xs \<Longrightarrow> length (filter (\<lambda>q. q = p) xs) = (if p \<in> set xs then 1 else 0)"
  by (induction xs) auto

lemma validatePlaceholders_missing_count:
  "length (filter (\<lambda>e. type e = str ''MISSING_PLACEHOLDER'' \<and> field e = Some p)
      (validatePlaceholders sourceUnit result))
   = (if p \<in> set (placeholders sourceUnit)
         \<and> p \<notin> set (extractPlaceholders (translatedText result)) then 1 else 0)"
proof -
  let ?S = "new_Set (placeholders sourceUnit)"
  let ?T = "new_Set (extractPlaceholders (translatedText result))"
  have "length (filter (\<lambda>e. type e = str ''MISSING_PLACEHOLDER'' \<and> field e = Some p)
      (validatePlaceholders sourceUnit result))
    = length (filter (\<lambda>q. q = p) (filter (\<lambda>q. q \<notin> set ?T) ?S))"
    using type_names_distinct(1)
    by (simp add: validatePlaceholders_def Let_def filter_map comp_def)
  also have "\<dots> = (if p \<in> set (filter (\<lambda>q. q \<notin> set ?T) ?S) then 1 else 0)"
    by (rule count_distinct) (simp add: new_Set_props)
  finally show ?thesis
    by (simp add: new_Set_props)
qed

lemma validatePlaceholders_extra_count:
  "length (filter (\<lambda>e. type e = str ''EXTRA_PLACEHOLDER'' \<and> field e = Some p)
      (validatePlaceholders sourceUnit result))
   = (if p \<in> set (extractPlaceholders (translatedText result))
         \<and> p \<notin> set (placeholders sourceUnit) then 1 else 0)"
proof -
  let ?S = "new_Set (placeholders sourceUnit)"
  let ?T = "new_Set (extractPlaceholders (translatedText result))"
  have "length (filter (\<lambda>e. type e = str ''EXTRA_PLACEHOLDER'' \<and> field e = Some p)
      (validatePlaceholders sourceUnit result))
    = length (filter (\<lambda>q. q = p) (filter (\<lambda>q. q \<notin> set ?S) ?T))"
    using type_names_distinct(1) [symmetric]
    by (simp add: validatePlaceholders_def Let_def filter_map comp_def)
  also have "\<dots> = (if p \<in> set (filter (\<lambda>q. q \<notin> set ?S) ?T) then 1 else 0)"
    by (rule count_distinct) (simp add: new_Set_props)
  finally show ?thesis
    by (simp add: new_Set_props)
qed

lemma validatePlaceholders_Nil_iff:
  "validatePlaceholders sourceUnit result = []
   \<longleftrightarrow> set (placeholders sourceUnit) = set (extractPlaceholders (translatedText result))"
  by (auto simp: validatePlaceholders_def Let_def new_Set_props filter_empty_conv)

lemma validateSemantics_types:
  "w \<in> set (validateSemantics rt config sourceUnit result) \<Longrightarrow>
   type w = str ''LENGTH_RATIO_EXCEEDED''"
  by (auto simp: validateSemantics_def Let_def split: if_splits)

lemma validateBrandNames_types:
  "w \<in> set (validateBrandNames config sourceUnit result) \<Longrightarrow>
   type w = str ''MISSING_BRAND_NAME''"
  by (auto simp: validateBrandNames_def Let_def)

lemma validate_blank:
  "\<forall>c \<in> set (translatedText result). is_js_space c \<Longrightarrow>
   validate rt config result sourceUnit =
     \<lparr>isValid = False,
      errors = [\<lparr>type = str ''EMPTY_TRANSLATION'', message = str ''Translation is empty'',
                 field = None\<rparr>],
      warnings = [],
      confidence = Num 0\<rparr>"
  using blank_iff [of result] by (simp add: validate_def)

lemma validate_nonblank:
  assumes "\<not> (\<forall>c \<in> set (translatedText result). is_js_space c)"
  shows "errors (validate rt config result sourceUnit) =
      (if preservePlaceholders config \<noteq> Some False
       then validatePlaceholders sourceUnit result else [])
      @ (if preventSourceLeakage config \<noteq> Some False \<and> detectSourceLeakage rt sourceUnit result
         then [\<lparr>type = str ''SOURCE_LEAKAGE'',
                 message = str ''Translation appears to be in source language'',
                 field = None\<rparr>]
         else [])"
    and "warnings (validate rt config result sourceUnit) =
      validateSemantics rt config sourceUnit result
      @ (case brandNames config of
           None \<Rightarrow> []
         | Some bs \<Rightarrow> if 0 < length bs then validateBrandNames config sourceUnit result else [])"
    and "isValid (validate rt config result sourceUnit)
      \<longleftrightarrow> errors (validate rt config result sourceUnit) = []"
    and "confidence (validate rt config result sourceUnit) =
      (let c2 = (if (if preservePlaceholders config \<noteq> Some False
                     then validatePlaceholders sourceUnit result else []) \<noteq> []
                 then js_mul (Num 1) (fl (1 / 2)) else Num 1);
           c3 = (if validateSemantics rt config sourceUnit result \<noteq> []
                 then js_mul c2 (fl (4 / 5)) else c2);
           c4 = (if preventSourceLeakage config \<noteq> Some False
                    \<and> detectSourceLeakage rt sourceUnit result
                 then js_mul c3 (fl (3 / 10)) else c3)
       in c4)"
proof -
  from assms blank_iff [of result]
  have nb: "\<not> (translatedText result = [] \<or> length (js_trim (translatedText result)) = 0)"
    by blast
  show "errors (validate rt config result sourceUnit) =
      (if preservePlaceholders config \<noteq> Some False
       then validatePlaceholders sourceUnit result else [])
      @ (if preventSourceLeakage config \<noteq> Some False \<and> detectSourceLeakage rt sourceUnit result
         then [\<lparr>type = str ''SOURCE_LEAKAGE'',
                 message = str ''Translation appears to be in source language'',
                 field = None\<rparr>]
         else [])"
    using nb by (simp add: validate_def Let_def)
  show "warnings (validate rt config result sourceUnit) =
      validateSemantics rt config sourceUnit result
      @ (case brandNames config of
           None \<Rightarrow> []
         | Some bs \<Rightarrow> if 0 < length bs then validateBrandNames config sourceUnit result else [])"
    using nb by (simp add: validate_def Let_def)
  show "isValid (validate rt config result sourceUnit)
      \<longleftrightarrow> errors (validate rt config result sourceUnit) = []"
    using nb by (simp add: validate_def Let_def)
  show "confidence (validate rt config result sourceUnit) =
      (let c2 = (if (if preservePlaceholders config \<noteq> Some False
                     then validatePlaceholders sourceUnit result else []) \<noteq> []
                 then js_mul (Num 1) (fl (1 / 2)) else Num 1);
           c3 = (if validateSemantics rt config sourceUnit result \<noteq> []
                 then js_mul c2 (fl (4 / 5)) else c2);
           c4 = (if preventSourceLeakage config \<noteq> Some False
                    \<and> detectSourceLeakage rt sourceUnit result
                 then js_mul c3 (fl (3 / 10)) else c3)
       in c4)"
    using nb by (simp add: validate_def Let_def)
qed

lemma ex_eval:
  "validate ex_runtime default_config (ex_translation ''Bonjour'') ex_source =
     \<lparr>isValid = False,
      errors = [\<lparr>type = str ''MISSING_PLACEHOLDER'',
                 message = str ''Missing placeholder: {name}'',
                 field = Some (str ''{name}'')\<rparr>],
      warnings = [],
      confidence = Num (1 / 2)\<rparr>"
  by code_simp

lemma ex_nonblank:
  "\<not> (\<forall>c \<in> set (translatedText (ex_translation ''Bonjour'')). is_js_space c)"
  by (simp add: ex_translation_def str_def is_js_space_def)

lemma ex_got: "extractPlaceholders (translatedText (ex_translation ''Bonjour'')) = []"
  by (simp add: ex_translation_def extractPlaceholders_def patterns_def str_def ch_def
      set_add_def)

lemma ex_first_char:
  "ch CHR ''B'' \<in> set (translatedText (ex_translation ''Bonjour''))"
  "\<not> is_js_space (ch CHR ''B'')"
  by (simp_all add: ex_translation_def str_def ch_def is_js_space_def)

lemma confidence_as_product:
  "(let c2 = (if pe then js_mul (Num 1) a else Num 1);
        c3 = (if sw then js_mul c2 b else c2);
        c4 = (if lk then js_mul c3 c else c3)
    in c4)
   = foldl js_mul (Num 1)
       ((if pe then [a] else []) @ (if sw then [b] else []) @ (if lk then [c] else []))"
  by (simp add: Let_def)

section \<open>Claims about the planner\<close>

text \<open>
  Claim C1. For every list of source units and of target languages \<open>createPlan\<close> returns a
  plan, and a pair of a unit and a language code is included in it exactly when the unit
  and the language are among the inputs and either the ledger has no \<open>sync_status\<close> row for
  the pair, or the stored status is not \<open>MANUAL\<close> and the source hash that
  \<open>getSourceHash\<close> reports for the key differs from the unit's hash or the status is
  \<open>FAILED\<close> or \<open>DIRTY\<close>. So a \<open>MANUAL\<close> pair is never included, and a \<open>CLEAN\<close> pair with
  an equal stored hash is excluded. The stored hash is the one read through
  \<open>getSourceHash\<close>, which reports an empty stored value as absent.
\<close>

theorem createPlan_inclusion_rule:
  "\<exists>plan. createPlan computeHash clock l units langs = Some plan
     \<and> (\<forall>unit code. plan_includes plan unit code \<longleftrightarrow>
           unit \<in> set units \<and> code \<in> shortCode ` set langs
           \<and> (getSyncStatus l (keyPath unit) code = None
              \<or> (\<exists>row. getSyncStatus l (keyPath unit) code = Some row
                   \<and> status row \<noteq> MANUAL
                   \<and> (getSourceHash l (keyPath unit) \<noteq> Some (sourceHash unit)
                        \<or> status row = FAILED \<or> status row = DIRTY))))"
proof -
  from createPlan_includes [of computeHash clock l units langs] obtain plan where
    plan: "createPlan computeHash clock l units langs = Some plan"
    and inc: "\<And>unit code. plan_includes plan unit code \<longleftrightarrow>
           unit \<in> set units \<and> (\<exists>lang \<in> set langs. shortCode lang = code)
           \<and> needsTranslation l code unit"
    by blast
  have "(\<exists>lang \<in> set langs. shortCode lang = code) \<longleftrightarrow> code \<in> shortCode ` set langs" for code
    by auto
  with plan inc show ?thesis
    by (simp add: needsTranslation_iff)
qed

theorem createPlan_inclusion_rule_witness:
  "\<exists>plan. createPlan id (\<lambda>k. 0) ex_ledger
       [ex_unit ''greeting'' ''h1'', ex_unit ''farewell'' ''h2''] [ex_lang ''French'' ''fr'']
       = Some plan
     \<and> plan_includes plan (ex_unit ''farewell'' ''h2'') (str ''fr'')
     \<and> \<not> plan_includes plan (ex_unit ''greeting'' ''h1'') (str ''fr'')
     \<and> \<not> plan_includes plan (ex_unit ''farewell'' ''h2'') (str ''de'')"
proof -
  let ?units = "[ex_unit ''greeting'' ''h1'', ex_unit ''farewell'' ''h2'']"
  from createPlan_inclusion_rule [of id "\<lambda>k. 0" ex_ledger ?units "[ex_lang ''French'' ''fr'']"]
  obtain plan where
    plan: "createPlan id (\<lambda>k. 0) ex_ledger ?units [ex_lang ''French'' ''fr''] = Some plan"
    and inc: "\<And>unit code. plan_includes plan unit code \<longleftrightarrow>
           unit \<in> set ?units \<and> code \<in> shortCode ` set [ex_lang ''French'' ''fr'']
           \<and> (getSyncStatus ex_ledger (keyPath unit) code = None
              \<or> (\<exists>row. getSyncStatus ex_ledger (keyPath unit) code = Some row
                   \<and> status row \<noteq> MANUAL
                   \<and> (getSourceHash ex_ledger (keyPath unit) \<noteq> Some (sourceHash unit)
                        \<or> status row = FAILED \<or> status row = DIRTY)))"
    by blast
  have "plan_includes plan (ex_unit ''farewell'' ''h2'') (str ''fr'')"
    unfolding inc by (simp add: ex_ledger_sync ex_unit_def ex_lang_def str_def)
  moreover have "\<not> plan_includes plan (ex_unit ''greeting'' ''h1'') (str ''fr'')"
    unfolding inc by (simp add: ex_ledger_sync ex_ledger_hash ex_unit_def ex_lang_def str_def)
  moreover have "\<not> plan_includes plan (ex_unit ''farewell'' ''h2'') (str ''de'')"
    unfolding inc by (simp add: ex_lang_def str_def)
  ultimately show ?thesis
    using plan by blast
qed

text \<open>
  Claim C2. Re-sync is idempotent: when for every unit the source hash that
  \<open>getSourceHash\<close> reports for its key equals the unit's hash, and every pair of a unit
  and a target language has a stored status \<open>CLEAN\<close>, \<open>createPlan\<close> returns a plan with an
  empty batch list and \<open>totalUnits = 0\<close>.
\<close>

theorem createPlan_idempotent_resync:
  assumes hashes: "\<forall>unit \<in> set units. getSourceHash l (keyPath unit) = Some (sourceHash unit)"
    and clean: "\<forall>unit \<in> set units. \<forall>lang \<in> set langs.
        \<exists>row. getSyncStatus l (keyPath unit) (shortCode lang) = Some row \<and> status row = CLEAN"
  shows "\<exists>plan. createPlan computeHash clock l units langs = Some plan
     \<and> batches plan = [] \<and> totalUnits plan = 0"
proof -
  have none: "detectChanges l units (shortCode lang) = []" if "lang \<in> set langs" for lang
  proof -
    have "\<not> needsTranslation l (shortCode lang) unit" if "unit \<in> set units" for unit
      using hashes clean that \<open>lang \<in> set langs\<close>
      by (fastforce simp: needsTranslation_iff)
    then show ?thesis
      by (simp add: detectChanges_filter)
  qed
  from createPlan_result [of computeHash clock l units langs] obtain bss where
    plan: "createPlan computeHash clock l units langs =
       Some \<lparr>batches = concat bss,
             totalUnits = sum_list (map (\<lambda>lang. length (detectChanges l units (shortCode lang))) langs),
             estimatedCost = estimateCost
               (sum_list (map (\<lambda>lang. length (detectChanges l units (shortCode lang))) langs))\<rparr>"
    and bss: "list_all2 (\<lambda>lang lbs. \<exists>t.
           createBatches computeHash clock t (detectChanges l units (shortCode lang))
             (shortCode lang) 20 = Some lbs) langs bss"
    by blast
  from bss none have "\<forall>lbs \<in> set bss. lbs = []"
    by (induction langs bss rule: list_all2_induct) auto
  then have "concat bss = []"
    by simp
  moreover have "sum_list (map (\<lambda>lang. length (detectChanges l units (shortCode lang))) langs) = 0"
    using none by simp
  ultimately show ?thesis
    using plan by simp
qed

theorem createPlan_idempotent_resync_witness:
  "getSourceHash ex_ledger (keyPath (ex_unit ''greeting'' ''h1''))
     = Some (sourceHash (ex_unit ''greeting'' ''h1''))
   \<and> (\<exists>row. getSyncStatus ex_ledger (keyPath (ex_unit ''greeting'' ''h1''))
               (shortCode (ex_lang ''French'' ''fr'')) = Some row
          \<and> status row = CLEAN)
   \<and> (\<exists>plan. createPlan id (\<lambda>k. 0) ex_ledger [ex_unit ''greeting'' ''h1'']
         [ex_lang ''French'' ''fr''] = Some plan
       \<and> batches plan = [] \<and> totalUnits plan = 0)"
proof -
  have h1: "getSourceHash ex_ledger (keyPath (ex_unit ''greeting'' ''h1''))
     = Some (sourceHash (ex_unit ''greeting'' ''h1''))"
    by (simp add: ex_ledger_hash ex_unit_def)
  have c1: "\<exists>row. getSyncStatus ex_ledger (keyPath (ex_unit ''greeting'' ''h1''))
               (shortCode (ex_lang ''French'' ''fr'')) = Some row
          \<and> status row = CLEAN"
    by (simp add: ex_ledger_sync ex_unit_def ex_lang_def)
  from h1 have h: "\<forall>unit \<in> set [ex_unit ''greeting'' ''h1''].
      getSourceHash ex_ledger (keyPath unit) = Some (sourceHash unit)"
    by simp
  from c1 have c: "\<forall>unit \<in> set [ex_unit ''greeting'' ''h1'']. \<forall>lang \<in> set [ex_lang ''French'' ''fr''].
        \<exists>row. getSyncStatus ex_ledger (keyPath unit) (shortCode lang) = Some row
          \<and> status row = CLEAN"
    by simp
  from h1 c1 createPlan_idempotent_resync [OF h c, of id "\<lambda>k. 0"] show ?thesis
    by blast
qed

text \<open>
  Claim C3. \<open>isManualOverride\<close> is true exactly when the pair has a stored status that is
  \<open>MANUAL\<close>, or that is \<open>CLEAN\<close> with a stored target hash different from the current
  one; it is false for a pair without a stored status and for a \<open>CLEAN\<close> pair with a
  matching hash. After \<open>markAsManualOverride\<close> the stored status is \<open>MANUAL\<close> and the
  detector answers true for every hash. For every ledger in which the status of the pair
  is \<open>MANUAL\<close>, whatever the stored source hashes and the source units are,
  \<open>createPlan\<close> returns a plan that includes no unit with that key for that language.
\<close>

theorem manual_override_sticky:
  "(isManualOverride l key langCode h \<longleftrightarrow>
      (\<exists>row. getSyncStatus l key langCode = Some row
         \<and> (status row = MANUAL \<or> (status row = CLEAN \<and> target_hash row \<noteq> h))))
   \<and> (getSyncStatus l key langCode = None \<longrightarrow> \<not> isManualOverride l key langCode h)
   \<and> (\<forall>row. getSyncStatus l key langCode = Some row \<and> status row = CLEAN
          \<and> target_hash row = h \<longrightarrow> \<not> isManualOverride l key langCode h)
   \<and> (\<forall>h'. isManualOverride (markAsManualOverride now l key langCode h) key langCode h')
   \<and> (\<exists>row. getSyncStatus (markAsManualOverride now l key langCode h) key langCode = Some row
         \<and> status row = MANUAL)
   \<and> (\<forall>l'. (\<exists>row. getSyncStatus l' key langCode = Some row \<and> status row = MANUAL)
        \<longrightarrow> (\<exists>plan. createPlan computeHash clock l' units langs = Some plan
              \<and> (\<forall>unit. keyPath unit = key \<longrightarrow> \<not> plan_includes plan unit langCode)))"
proof -
  have "\<exists>plan. createPlan computeHash clock l' units langs = Some plan
              \<and> (\<forall>unit. keyPath unit = key \<longrightarrow> \<not> plan_includes plan unit langCode)"
    if "\<exists>row. getSyncStatus l' key langCode = Some row \<and> status row = MANUAL" for l'
  proof -
    from createPlan_includes [of computeHash clock l' units langs] obtain plan where
      plan: "createPlan computeHash clock l' units langs = Some plan"
      and inc: "\<And>unit code. plan_includes plan unit code \<longleftrightarrow>
           unit \<in> set units \<and> (\<exists>lang \<in> set langs. shortCode lang = code)
           \<and> needsTranslation l' code unit"
      by blast
    have "\<not> needsTranslation l' langCode unit" if "keyPath unit = key" for unit
      using that \<open>\<exists>row. getSyncStatus l' key langCode = Some row \<and> status row = MANUAL\<close>
      by (auto simp: needsTranslation_iff)
    with plan inc show ?thesis
      by blast
  qed
  then show ?thesis
    by (simp add: isManualOverride_iff getSyncStatus_markAsManualOverride)
qed

theorem manual_override_sticky_witness:
  "isManualOverride ex_ledger (str ''greeting'') (str ''fr'') (str ''th2'')
   \<and> \<not> isManualOverride ex_ledger (str ''greeting'') (str ''fr'') (str ''th1'')
   \<and> \<not> isManualOverride ex_ledger (str ''farewell'') (str ''fr'') (str ''th1'')
   \<and> isManualOverride
        (markAsManualOverride (str ''t2'') ex_ledger (str ''greeting'') (str ''fr'') (str ''th1''))
        (str ''greeting'') (str ''fr'') (str ''th3'')
   \<and> (\<exists>plan. createPlan id (\<lambda>k. 0)
          (markAsManualOverride (str ''t2'') ex_ledger (str ''greeting'') (str ''fr'') (str ''th1''))
          [ex_unit ''greeting'' ''h2''] [ex_lang ''French'' ''fr''] = Some plan
        \<and> \<not> plan_includes plan (ex_unit ''greeting'' ''h2'') (str ''fr''))"
proof -
  let ?l' = "markAsManualOverride (str ''t2'') ex_ledger (str ''greeting'') (str ''fr'') (str ''th1'')"
  note inst = manual_override_sticky [of ex_ledger _ "str ''fr''" _ "str ''t2''" id "\<lambda>k. 0"
      "[ex_unit ''greeting'' ''h2'']" "[ex_lang ''French'' ''fr'']"]
  have a: "isManualOverride ex_ledger (str ''greeting'') (str ''fr'') (str ''th2'')"
    using inst [of "str ''greeting''" "str ''th2''"]
    by (simp add: ex_ledger_sync str_def)
  have b: "\<not> isManualOverride ex_ledger (str ''greeting'') (str ''fr'') (str ''th1'')"
    using inst [of "str ''greeting''" "str ''th1''"]
    by (simp add: ex_ledger_sync)
  have c: "\<not> isManualOverride ex_ledger (str ''farewell'') (str ''fr'') (str ''th1'')"
    using inst [of "str ''farewell''" "str ''th1''"]
    by (simp add: ex_ledger_sync str_def)
  from inst [of "str ''greeting''" "str ''th1''"]
  have d: "isManualOverride ?l' (str ''greeting'') (str ''fr'') (str ''th3'')"
    and m: "\<exists>row. getSyncStatus ?l' (str ''greeting'') (str ''fr'') = Some row
          \<and> status row = MANUAL"
    and g: "\<forall>l'. (\<exists>row. getSyncStatus l' (str ''greeting'') (str ''fr'') = Some row
              \<and> status row = MANUAL)
        \<longrightarrow> (\<exists>plan. createPlan id (\<lambda>k. 0) l' [ex_unit ''greeting'' ''h2'']
                [ex_lang ''French'' ''fr''] = Some plan
          \<and> (\<forall>unit. keyPath unit = str ''greeting''
                \<longrightarrow> \<not> plan_includes plan unit (str ''fr'')))"
    by blast+
  from g m
  have e: "\<exists>plan. createPlan id (\<lambda>k. 0) ?l' [ex_unit ''greeting'' ''h2'']
                [ex_lang ''French'' ''fr''] = Some plan
          \<and> (\<forall>unit. keyPath unit = str ''greeting'' \<longrightarrow> \<not> plan_includes plan unit (str ''fr''))"
    by blast
  have "keyPath (ex_unit ''greeting'' ''h2'') = str ''greeting''"
    by (simp add: ex_unit_def)
  with e have "\<exists>plan. createPlan id (\<lambda>k. 0) ?l' [ex_unit ''greeting'' ''h2'']
                [ex_lang ''French'' ''fr''] = Some plan
        \<and> \<not> plan_includes plan (ex_unit ''greeting'' ''h2'') (str ''fr'')"
    by blast
  with a b c d show ?thesis
    by blast
qed

text \<open>
  Claim C9. The plan's batch list is the concatenation, over the target languages in
  order, of one list of batches per language. The unit lists of a language's batches,
  concatenated, are the units selected for that language in their original order; the
  \<open>j\<close>-th batch holds the 20 selected units from position \<open>20 j\<close> on, so every batch has
  between 1 and 20 units and every batch but the last exactly 20. Each batch's
  \<open>deduplicationKey\<close> is \<open>computeHash\<close> of its members' source hashes joined with \<open>_\<close>, and
  the hash function has no effect on the grouping: with any other hash function and clock
  the plan's batches hold the same units for the same languages.
\<close>

theorem createPlan_batches_of_twenty:
  "\<exists>plan bss. createPlan computeHash clock l units langs = Some plan
     \<and> batches plan = concat bss \<and> length bss = length langs
     \<and> (\<forall>k < length langs.
          concat (map sourceUnits (bss ! k)) = detectChanges l units (shortCode (langs ! k))
          \<and> (\<forall>j < length (bss ! k).
                targetLanguage (bss ! k ! j) = shortCode (langs ! k)
                \<and> sourceUnits (bss ! k ! j)
                    = take 20 (drop (j * 20) (detectChanges l units (shortCode (langs ! k))))
                \<and> 1 \<le> length (sourceUnits (bss ! k ! j))
                \<and> length (sourceUnits (bss ! k ! j)) \<le> 20
                \<and> (Suc j < length (bss ! k) \<longrightarrow> length (sourceUnits (bss ! k ! j)) = 20)
                \<and> deduplicationKey (bss ! k ! j)
                    = computeHash (join_with (str ''_'')
                        (map sourceHash (sourceUnits (bss ! k ! j))))))
     \<and> (\<forall>computeHash' clock'. \<exists>plan'.
          createPlan computeHash' clock' l units langs = Some plan'
          \<and> map sourceUnits (batches plan') = map sourceUnits (batches plan)
          \<and> map targetLanguage (batches plan') = map targetLanguage (batches plan))"
proof -
  let ?P = "\<lambda>h c lang lbs. \<exists>t. createBatches h c t (detectChanges l units (shortCode lang))
             (shortCode lang) 20 = Some lbs"
  from createPlan_result [of computeHash clock l units langs] obtain bss plan where
    plan: "createPlan computeHash clock l units langs = Some plan" "batches plan = concat bss"
    and bss: "list_all2 (?P computeHash clock) langs bss"
    by force
  from bss have len: "length bss = length langs"
    by (simp add: list_all2_lengthD)
  have per_lang: "concat (map sourceUnits (bss ! k)) = detectChanges l units (shortCode (langs ! k))
          \<and> (\<forall>j < length (bss ! k).
                targetLanguage (bss ! k ! j) = shortCode (langs ! k)
                \<and> sourceUnits (bss ! k ! j)
                    = take 20 (drop (j * 20) (detectChanges l units (shortCode (langs ! k))))
                \<and> 1 \<le> length (sourceUnits (bss ! k ! j))
                \<and> length (sourceUnits (bss ! k ! j)) \<le> 20
                \<and> (Suc j < length (bss ! k) \<longrightarrow> length (sourceUnits (bss ! k ! j)) = 20)
                \<and> deduplicationKey (bss ! k ! j)
                    = computeHash (join_with (str ''_'')
                        (map sourceHash (sourceUnits (bss ! k ! j)))))"
    if "k < length langs" for k
  proof -
    from bss that obtain t where
      cb: "createBatches computeHash clock t (detectChanges l units (shortCode (langs ! k)))
             (shortCode (langs ! k)) 20 = Some (bss ! k)"
      by (auto simp: list_all2_conv_all_nth)
    show ?thesis
      using createBatches_concat [OF cb] createBatches_sizes [OF cb]
      by blast
  qed
  have indep: "\<exists>plan'. createPlan computeHash' clock' l units langs = Some plan'
          \<and> map sourceUnits (batches plan') = map sourceUnits (batches plan)
          \<and> map targetLanguage (batches plan') = map targetLanguage (batches plan)"
    for computeHash' clock'
  proof -
    from createPlan_result [of computeHash' clock' l units langs] obtain bss' plan' where
      plan': "createPlan computeHash' clock' l units langs = Some plan'"
        "batches plan' = concat bss'"
      and bss': "list_all2 (?P computeHash' clock') langs bss'"
      by force
    from plan_batches_units_indep [OF bss' bss] plan plan' show ?thesis
      by simp
  qed
  from plan len per_lang indep show ?thesis
    by blast
qed

theorem createPlan_batches_of_twenty_witness:
  "\<exists>plan bss. createPlan id (\<lambda>k. 0) empty_ledger (replicate 21 (ex_unit ''greeting'' ''h1''))
        [ex_lang ''French'' ''fr''] = Some plan
     \<and> batches plan = concat bss
     \<and> 0 < length [ex_lang ''French'' ''fr'']
     \<and> Suc 0 < length (bss ! 0)
     \<and> length (sourceUnits (bss ! 0 ! 0)) = 20"
proof -
  let ?units = "replicate 21 (ex_unit ''greeting'' ''h1'')"
  let ?langs = "[ex_lang ''French'' ''fr'']"
  have sel: "detectChanges empty_ledger ?units (shortCode (?langs ! 0)) = ?units"
    by (simp add: detectChanges_filter needsTranslation_def getSyncStatus_def empty_ledger_def)
  from createPlan_batches_of_twenty [of id "\<lambda>k. 0" empty_ledger ?units ?langs]
  obtain plan bss where
    plan: "createPlan id (\<lambda>k. 0) empty_ledger ?units ?langs = Some plan"
      "batches plan = concat bss"
    and all: "\<forall>k < length ?langs.
          concat (map sourceUnits (bss ! k)) = detectChanges empty_ledger ?units (shortCode (?langs ! k))
          \<and> (\<forall>j < length (bss ! k).
                targetLanguage (bss ! k ! j) = shortCode (?langs ! k)
                \<and> sourceUnits (bss ! k ! j)
                    = take 20 (drop (j * 20) (detectChanges empty_ledger ?units (shortCode (?langs ! k))))
                \<and> 1 \<le> length (sourceUnits (bss ! k ! j))
                \<and> length (sourceUnits (bss ! k ! j)) \<le> 20
                \<and> (Suc j < length (bss ! k) \<longrightarrow> length (sourceUnits (bss ! k ! j)) = 20)
                \<and> deduplicationKey (bss ! k ! j)
                    = id (join_with (str ''_'')
                        (map sourceHash (sourceUnits (bss ! k ! j)))))"
    by blast
  have zero: "0 < length ?langs"
    by simp
  from all zero sel have cc: "concat (map sourceUnits (bss ! 0)) = ?units"
    and each: "\<forall>j < length (bss ! 0). length (sourceUnits (bss ! 0 ! j)) \<le> 20
        \<and> (Suc j < length (bss ! 0) \<longrightarrow> length (sourceUnits (bss ! 0 ! j)) = 20)"
    by auto
  have two: "Suc 0 < length (bss ! 0)"
  proof (rule ccontr)
    assume "\<not> Suc 0 < length (bss ! 0)"
    then consider "bss ! 0 = []" | b where "bss ! 0 = [b]"
      by (cases "bss ! 0"; cases "tl (bss ! 0)") auto
    then show False
    proof cases
      case 1
      with cc show False by simp
    next
      case 2
      with cc have "sourceUnits b = ?units" by simp
      moreover from 2 each have "length (sourceUnits b) \<le> 20" by simp
      ultimately show False by simp
    qed
  qed
  from two have "0 < length (bss ! 0)"
    by (cases "bss ! 0") simp_all
  with each two have "length (sourceUnits (bss ! 0 ! 0)) = 20"
    by blast
  with plan zero two show ?thesis
    by blast
qed

text \<open>
  Claim C10. When the ledger has no \<open>source_hashes\<close> row for a unit's key,
  \<open>getSourceHash\<close> returns nothing, the comparison with the unit's hash counts as a
  change, and a pair whose stored status is \<open>CLEAN\<close> is included in the plan all the
  same, for every target language with that status.
\<close>

theorem clean_without_source_row_included:
  assumes "source_hashes l (keyPath unit) = None"
    and "getSyncStatus l (keyPath unit) (shortCode lang) = Some row"
    and "status row = CLEAN"
    and "unit \<in> set units" and "lang \<in> set langs"
  shows "getSourceHash l (keyPath unit) = None
     \<and> (\<exists>plan. createPlan computeHash clock l units langs = Some plan
          \<and> plan_includes plan unit (shortCode lang))"
proof -
  from assms(1) have none: "getSourceHash l (keyPath unit) = None"
    by (simp add: getSourceHash_def)
  with assms have "needsTranslation l (shortCode lang) unit"
    by (simp add: needsTranslation_iff)
  with createPlan_includes [of computeHash clock l units langs] assms(4,5) none
  show ?thesis
    by blast
qed

theorem clean_without_source_row_included_witness:
  "source_hashes ex_ledger_no_hash (keyPath (ex_unit ''greeting'' ''h1'')) = None
   \<and> (\<exists>row. getSyncStatus ex_ledger_no_hash (keyPath (ex_unit ''greeting'' ''h1''))
               (shortCode (ex_lang ''French'' ''fr'')) = Some row \<and> status row = CLEAN)
   \<and> (\<exists>plan. createPlan id (\<lambda>k. 0) ex_ledger_no_hash [ex_unit ''greeting'' ''h1'']
          [ex_lang ''French'' ''fr''] = Some plan
        \<and> plan_includes plan (ex_unit ''greeting'' ''h1'') (str ''fr''))"
proof -
  let ?row = "\<lparr>key_path = str ''greeting'', lang_code = str ''fr'', target_hash = str ''th1'',
      status = CLEAN, model_fingerprint = None, prompt_version = None,
      updated_at = str ''t1''\<rparr>"
  have h: "source_hashes ex_ledger_no_hash (keyPath (ex_unit ''greeting'' ''h1'')) = None"
    by (simp add: ex_ledger_no_hash_def updateSyncStatus_def empty_ledger_def)
  have s: "getSyncStatus ex_ledger_no_hash (keyPath (ex_unit ''greeting'' ''h1''))
      (shortCode (ex_lang ''French'' ''fr'')) = Some ?row"
    by (simp add: ex_ledger_no_hash_def updateSyncStatus_def getSyncStatus_def ex_unit_def
        ex_lang_def)
  have c: "status ?row = CLEAN"
    by simp
  from clean_without_source_row_included [OF h s c, of "[ex_unit ''greeting'' ''h1'']"
      "[ex_lang ''French'' ''fr'']" id "\<lambda>k. 0"]
  have "\<exists>plan. createPlan id (\<lambda>k. 0) ex_ledger_no_hash [ex_unit ''greeting'' ''h1'']
          [ex_lang ''French'' ''fr''] = Some plan
        \<and> plan_includes plan (ex_unit ''greeting'' ''h1'') (str ''fr'')"
    by (simp add: ex_lang_def)
  with h s c show ?thesis
    by blast
qed

section \<open>Claim about bulk import\<close>

text \<open>
  Claim C6. \<open>bulkImportTranslations\<close> runs its loop inside one transaction and returns
  counts that account for every record. A record whose pair is already \<open>CLEAN\<close> is
  skipped: its row stays as it was, and when all pairs are \<open>CLEAN\<close> nothing is imported
  and the ledger is returned unchanged. After an import every record's pair is \<open>CLEAN\<close>,
  so importing the same records a second time reports all of them as skipped, none as
  imported or errored, and leaves the ledger as the first call left it.
\<close>

theorem bulkImport_skips_clean_and_idempotent:
  "imported (fst (bulkImportTranslations now l records))
     + skipped (fst (bulkImportTranslations now l records))
     + errored (fst (bulkImportTranslations now l records)) = length records
   \<and> (\<forall>r \<in> set records.
        (\<exists>row. getSyncStatus l (import_keyPath r) (import_langCode r) = Some row
           \<and> status row = CLEAN)
        \<longrightarrow> getSyncStatus (snd (bulkImportTranslations now l records))
              (import_keyPath r) (import_langCode r)
            = getSyncStatus l (import_keyPath r) (import_langCode r))
   \<and> ((\<forall>r \<in> set records.
         \<exists>row. getSyncStatus l (import_keyPath r) (import_langCode r) = Some row
           \<and> status row = CLEAN)
        \<longrightarrow> bulkImportTranslations now l records
            = (\<lparr>imported = 0, skipped = length records, errored = 0\<rparr>, l))
   \<and> (\<forall>r \<in> set records.
        \<exists>row. getSyncStatus (snd (bulkImportTranslations now l records))
                 (import_keyPath r) (import_langCode r) = Some row
          \<and> status row = CLEAN)
   \<and> bulkImportTranslations now' (snd (bulkImportTranslations now l records)) records
       = (\<lparr>imported = 0, skipped = length records, errored = 0\<rparr>,
          snd (bulkImportTranslations now l records))"
proof -
  let ?s0 = "\<lparr>imported = 0, skipped = 0, errored = 0\<rparr>"
  let ?l1 = "snd (bulkImport_loop now records ?s0 l)"
  have counts: "imported (fst (bulkImport_loop now records ?s0 l))
     + skipped (fst (bulkImport_loop now records ?s0 l))
     + errored (fst (bulkImport_loop now records ?s0 l)) = length records"
    using bulkImport_loop_counts [of now records ?s0 l] by simp
  have keep: "getSyncStatus ?l1 (import_keyPath r) (import_langCode r)
            = getSyncStatus l (import_keyPath r) (import_langCode r)"
    if "pair_clean l (import_keyPath r) (import_langCode r)" for r
    using bulkImport_loop_keeps_clean [OF that, of now records ?s0]
    by (simp add: getSyncStatus_def)
  have skip_all: "bulkImport_loop now' records ?s0 l'
      = (\<lparr>imported = 0, skipped = length records, errored = 0\<rparr>, l')"
    if "\<forall>r \<in> set records. pair_clean l' (import_keyPath r) (import_langCode r)" for l' now'
    using bulkImport_loop_all_clean [OF that, of now' ?s0] by simp
  have clean: "\<forall>r \<in> set records. pair_clean ?l1 (import_keyPath r) (import_langCode r)"
    using bulkImport_loop_makes_clean by blast
  from counts keep skip_all [of l now] clean skip_all [OF clean, of now'] show ?thesis
    unfolding bulkImportTranslations_def transaction_def pair_clean_def
    by blast
qed

theorem bulkImport_skips_clean_and_idempotent_witness:
  "fst (bulkImportTranslations (str ''t1'') empty_ledger [ex_record])
     = \<lparr>imported = 1, skipped = 0, errored = 0\<rparr>
   \<and> (\<exists>row. getSyncStatus (snd (bulkImportTranslations (str ''t1'') empty_ledger [ex_record]))
                 (import_keyPath ex_record) (import_langCode ex_record) = Some row
          \<and> status row = CLEAN)
   \<and> bulkImportTranslations (str ''t2'')
        (snd (bulkImportTranslations (str ''t1'') empty_ledger [ex_record])) [ex_record]
       = (\<lparr>imported = 0, skipped = length [ex_record], errored = 0\<rparr>,
          snd (bulkImportTranslations (str ''t1'') empty_ledger [ex_record]))"
proof -
  let ?l1 = "snd (bulkImportTranslations (str ''t1'') empty_ledger [ex_record])"
  have first: "fst (bulkImportTranslations (str ''t1'') empty_ledger [ex_record])
     = \<lparr>imported = 1, skipped = 0, errored = 0\<rparr>"
    by (simp add: bulkImportTranslations_def transaction_def bulkImport_loop.simps
        getSyncStatus_def empty_ledger_def)
  have clean1: "\<exists>row. getSyncStatus ?l1 (import_keyPath ex_record) (import_langCode ex_record)
        = Some row \<and> status row = CLEAN"
    by (simp add: bulkImportTranslations_def transaction_def bulkImport_loop.simps
        getSyncStatus_def empty_ledger_def importExistingTranslation_def updateSyncStatus_def
        updateSourceHash_def)
  then have clean: "\<forall>r \<in> set [ex_record].
        \<exists>row. getSyncStatus ?l1 (import_keyPath r) (import_langCode r) = Some row
          \<and> status row = CLEAN"
    by simp
  from bulkImport_skips_clean_and_idempotent [of "str ''t2''" ?l1 "[ex_record]"] clean
  have "bulkImportTranslations (str ''t2'') ?l1 [ex_record]
       = (\<lparr>imported = 0, skipped = length [ex_record], errored = 0\<rparr>, ?l1)"
    by blast
  with first clean1 show ?thesis
    by blast
qed

section \<open>Claim about placeholder extraction\<close>

text \<open>
  Claim C7. For every text, \<open>extractPlaceholders\<close> returns the list, without duplicates and
  sorted lexicographically by code units, of the set union of the matches that scanning
  the text with each of the five patterns produces. Each element is a match as it stands
  in the text: a contiguous part of the text that has the form of one of the patterns,
  braces and sigils included, and not the captured variable name.
\<close>

theorem extractPlaceholders_sorted_union:
  "extractPlaceholders text = sorted_list_of_set (\<Union>p \<in> set patterns. set (match_all p text))
   \<and> distinct (extractPlaceholders text)
   \<and> sorted (extractPlaceholders text)
   \<and> set (extractPlaceholders text) = (\<Union>p \<in> set patterns. set (match_all p text))
   \<and> (\<forall>m \<in> set (extractPlaceholders text).
         sublist m text \<and> (\<exists>p \<in> set patterns. conforms p m))"
proof -
  let ?acc = "foldl (\<lambda>placeholders pattern. foldl set_add placeholders (match_all pattern text))
             [] patterns"
  have s: "set ?acc = (\<Union>p \<in> set patterns. set (match_all p text))"
    by (simp add: set_foldl_patterns)
  have d: "distinct ?acc"
    by (simp add: distinct_foldl_patterns)
  have "sorted_list_of_set (set ?acc) = sort ?acc"
    using d by (simp add: sorted_list_of_set_sort_remdups distinct_remdups_id)
  with s have eq: "extractPlaceholders text
      = sorted_list_of_set (\<Union>p \<in> set patterns. set (match_all p text))"
    by (simp add: extractPlaceholders_def)
  have sub: "sublist m text \<and> (\<exists>p \<in> set patterns. conforms p m)"
    if "m \<in> set (extractPlaceholders text)" for m
  proof -
    from that s obtain p where "p \<in> set patterns" "m \<in> set (match_all p text)"
      by (auto simp: extractPlaceholders_def)
    with match_all_sublist show ?thesis by blast
  qed
  from d s eq sub show ?thesis
    by (simp add: extractPlaceholders_def)
qed

theorem extractPlaceholders_sorted_union_witness:
  "extractPlaceholders (str ''Hi {name}, {{n}} %d ${v} $1 {name}'')
     = [str ''$1'', str ''${v}'', str ''%d'', str ''{name}'', str ''{v}'', str ''{{n}'',
        str ''{{n}}'']
   \<and> str ''{{n}'' \<in> set (extractPlaceholders (str ''Hi {name}, {{n}} %d ${v} $1 {name}''))
   \<and> sublist (str ''{{n}'') (str ''Hi {name}, {{n}} %d ${v} $1 {name}'')"
proof -
  have e: "extractPlaceholders (str ''Hi {name}, {{n}} %d ${v} $1 {name}'')
     = [str ''$1'', str ''${v}'', str ''%d'', str ''{name}'', str ''{v}'', str ''{{n}'',
        str ''{{n}}'']"
    by (simp add: extractPlaceholders_def patterns_def str_def ch_def set_add_def)
  then have m: "str ''{{n}''
      \<in> set (extractPlaceholders (str ''Hi {name}, {{n}} %d ${v} $1 {name}''))"
    by simp
  with extractPlaceholders_sorted_union [of "str ''Hi {name}, {{n}} %d ${v} $1 {name}''"]
  have "sublist (str ''{{n}'') (str ''Hi {name}, {{n}} %d ${v} $1 {name}'')"
    by blast
  with e m show ?thesis
    by blast
qed

section \<open>Claims about the validation pipeline\<close>

text \<open>
  Claim C5. When the translated text is empty or consists only of white space, \<open>validate\<close>
  returns, for every source unit, configuration and runtime, the same result:
  \<open>isValid = false\<close>, the single error \<open>EMPTY_TRANSLATION\<close>, no warnings and confidence
  0. No later stage contributes anything: no placeholder, length-ratio, leakage or
  brand-name check is made.
\<close>

theorem validate_empty_translation:
  assumes "\<forall>c \<in> set (translatedText result). is_js_space c"
  shows "validate rt config result sourceUnit =
     \<lparr>isValid = False,
      errors = [\<lparr>type = str ''EMPTY_TRANSLATION'', message = str ''Translation is empty'',
                 field = None\<rparr>],
      warnings = [],
      confidence = Num 0\<rparr>"
  using assms by (rule validate_blank)

theorem validate_empty_translation_witness:
  "translatedText (ex_translation '' '') = [ch CHR '' '']
   \<and> is_js_space (ch CHR '' '')
   \<and> validate ex_runtime default_config (ex_translation '' '') ex_source =
     \<lparr>isValid = False,
      errors = [\<lparr>type = str ''EMPTY_TRANSLATION'', message = str ''Translation is empty'',
                 field = None\<rparr>],
      warnings = [],
      confidence = Num 0\<rparr>"
proof -
  have t: "translatedText (ex_translation '' '') = [ch CHR '' '']"
    by (simp add: ex_translation_def str_def ch_def)
  have s: "is_js_space (ch CHR '' '')"
    by (simp add: ch_def is_js_space_def)
  from t s have "\<forall>c \<in> set (translatedText (ex_translation '' '')). is_js_space c"
    by simp
  with validate_empty_translation [of "ex_translation '' ''" ex_runtime default_config ex_source]
    t s
  show ?thesis
    by blast
qed

text \<open>
  Claim C8. For every translation result and source unit, \<open>isValid\<close> is true exactly when
  the error list is empty, and the confidence is a number between 0 and 1: it is 0 for a
  translation that is empty or white space only, and otherwise the product, starting from
  1.0 and taken in binary64 arithmetic, of the applicable factors: 0.5 if there is a
  placeholder error, 0.8 if there is a semantic warning and 0.3 if source leakage is
  reported, each at most once.
\<close>

theorem validate_verdict_and_confidence:
  "let r = validate rt config result sourceUnit;
       blank = (\<forall>c \<in> set (translatedText result). is_js_space c);
       placeholderError = (\<exists>e \<in> set (errors r).
          type e = str ''MISSING_PLACEHOLDER'' \<or> type e = str ''EXTRA_PLACEHOLDER'');
       semanticWarning = (\<exists>w \<in> set (warnings r). type w = str ''LENGTH_RATIO_EXCEEDED'');
       leakage = (\<exists>e \<in> set (errors r). type e = str ''SOURCE_LEAKAGE'')
   in (isValid r \<longleftrightarrow> errors r = [])
      \<and> (\<exists>q. confidence r = Num q \<and> 0 \<le> q \<and> q \<le> 1)
      \<and> (blank \<longrightarrow> confidence r = Num 0)
      \<and> (\<not> blank \<longrightarrow>
            confidence r =
              foldl js_mul (Num 1)
                ((if placeholderError then [fl (1 / 2)] else [])
                 @ (if semanticWarning then [fl (4 / 5)] else [])
                 @ (if leakage then [fl (3 / 10)] else [])))"
proof (cases "\<forall>c \<in> set (translatedText result). is_js_space c")
  case True
  then show ?thesis
    by (simp add: validate_blank Let_def)
next
  case False
  let ?r = "validate rt config result sourceUnit"
  let ?PE = "if preservePlaceholders config \<noteq> Some False
       then validatePlaceholders sourceUnit result else []"
  let ?SW = "validateSemantics rt config sourceUnit result"
  let ?LK = "preventSourceLeakage config \<noteq> Some False \<and> detectSourceLeakage rt sourceUnit result"
  note f = validate_nonblank [OF False, of rt config sourceUnit]
  have pe: "(\<exists>e \<in> set (errors ?r).
          type e = str ''MISSING_PLACEHOLDER'' \<or> type e = str ''EXTRA_PLACEHOLDER'')
      \<longleftrightarrow> ?PE \<noteq> []"
  proof
    assume "\<exists>e \<in> set (errors ?r).
          type e = str ''MISSING_PLACEHOLDER'' \<or> type e = str ''EXTRA_PLACEHOLDER''"
    then obtain e where "e \<in> set ?PE"
      unfolding f(1) using type_names_distinct by (auto split: if_splits)
    then show "?PE \<noteq> []" by auto
  next
    assume "?PE \<noteq> []"
    then obtain e where e: "e \<in> set ?PE"
      by (cases ?PE) auto
    then have "type e = str ''MISSING_PLACEHOLDER'' \<or> type e = str ''EXTRA_PLACEHOLDER''"
      using validatePlaceholders_types by (auto split: if_splits)
    with e show "\<exists>e \<in> set (errors ?r).
          type e = str ''MISSING_PLACEHOLDER'' \<or> type e = str ''EXTRA_PLACEHOLDER''"
      unfolding f(1) by auto
  qed
  have sw: "(\<exists>w \<in> set (warnings ?r). type w = str ''LENGTH_RATIO_EXCEEDED'') \<longleftrightarrow> ?SW \<noteq> []"
  proof
    assume "\<exists>w \<in> set (warnings ?r). type w = str ''LENGTH_RATIO_EXCEEDED''"
    then obtain w where "w \<in> set ?SW"
      unfolding f(2) using type_names_distinct(4) validateBrandNames_types
      by (fastforce split: option.splits if_splits)
    then show "?SW \<noteq> []" by auto
  next
    assume "?SW \<noteq> []"
    then obtain w where w: "w \<in> set ?SW"
      by (cases ?SW) auto
    then have "type w = str ''LENGTH_RATIO_EXCEEDED''"
      by (rule validateSemantics_types)
    with w show "\<exists>w \<in> set (warnings ?r). type w = str ''LENGTH_RATIO_EXCEEDED''"
      unfolding f(2) by auto
  qed
  have lk: "(\<exists>e \<in> set (errors ?r). type e = str ''SOURCE_LEAKAGE'') \<longleftrightarrow> ?LK"
  proof
    assume "\<exists>e \<in> set (errors ?r). type e = str ''SOURCE_LEAKAGE''"
    then show ?LK
      unfolding f(1) using type_names_distinct validatePlaceholders_types
      by (fastforce split: if_splits)
  next
    assume ?LK
    then show "\<exists>e \<in> set (errors ?r). type e = str ''SOURCE_LEAKAGE''"
      unfolding f(1) by simp
  qed
  note T = confidence_table [of "?PE \<noteq> []" "?SW \<noteq> []" ?LK, unfolded Let_def]
  note c = f(4) [unfolded Let_def]
  have conf: "confidence ?r =
      foldl js_mul (Num 1)
        ((if ?PE \<noteq> [] then [fl (1 / 2)] else [])
         @ (if ?SW \<noteq> [] then [fl (4 / 5)] else [])
         @ (if ?LK then [fl (3 / 10)] else []))"
    unfolding f(4) by (rule confidence_as_product)
  have bound: "\<exists>q. confidence ?r = Num q \<and> 0 \<le> q \<and> q \<le> 1"
    unfolding c by (rule T)
  from False f(3) bound conf show ?thesis
    unfolding Let_def pe sw lk by blast
qed

theorem validate_verdict_and_confidence_witness:
  "ch CHR ''B'' \<in> set (translatedText (ex_translation ''Bonjour''))
   \<and> \<not> is_js_space (ch CHR ''B'')
   \<and> \<not> isValid (validate ex_runtime default_config (ex_translation ''Bonjour'') ex_source)
   \<and> errors (validate ex_runtime default_config (ex_translation ''Bonjour'') ex_source) \<noteq> []
   \<and> confidence (validate ex_runtime default_config (ex_translation ''Bonjour'') ex_source)
       = js_mul (Num 1) (fl (1 / 2))"
proof -
  let ?r = "validate ex_runtime default_config (ex_translation ''Bonjour'') ex_source"
  note t = validate_verdict_and_confidence [of ex_runtime default_config
      "ex_translation ''Bonjour''" ex_source, unfolded Let_def]
  have pe: "\<exists>e \<in> set (errors ?r).
      type e = str ''MISSING_PLACEHOLDER'' \<or> type e = str ''EXTRA_PLACEHOLDER''"
    by (simp add: ex_eval)
  have sw: "\<not> (\<exists>w \<in> set (warnings ?r). type w = str ''LENGTH_RATIO_EXCEEDED'')"
    by (simp add: ex_eval)
  have lk: "\<not> (\<exists>e \<in> set (errors ?r). type e = str ''SOURCE_LEAKAGE'')"
    by (simp add: ex_eval type_names_distinct)
  have ne: "errors ?r \<noteq> []"
    by (simp add: ex_eval)
  from t ex_nonblank have "confidence ?r =
      foldl js_mul (Num 1)
        ((if \<exists>e \<in> set (errors ?r).
              type e = str ''MISSING_PLACEHOLDER'' \<or> type e = str ''EXTRA_PLACEHOLDER''
          then [fl (1 / 2)] else [])
         @ (if \<exists>w \<in> set (warnings ?r). type w = str ''LENGTH_RATIO_EXCEEDED''
            then [fl (4 / 5)] else [])
         @ (if \<exists>e \<in> set (errors ?r). type e = str ''SOURCE_LEAKAGE''
            then [fl (3 / 10)] else []))"
    by blast
  then have "confidence ?r = js_mul (Num 1) (fl (1 / 2))"
    by (simp only: pe sw lk if_True if_False append.simps foldl.simps)
  moreover from t ne have "\<not> isValid ?r"
    by blast
  ultimately show ?thesis
    using ex_first_char ne by blast
qed

text \<open>
  Claim C4. With placeholder preservation enabled and a translation that passes the
  non-empty check (it is neither empty nor white space only), \<open>validate\<close> compares the set
  of placeholders extracted from the translated text with the set recorded on the source
  unit. Each placeholder of the source unit that is not extracted from the translation
  gives exactly one \<open>MISSING_PLACEHOLDER\<close> error, each extracted placeholder that the
  source unit does not record gives exactly one \<open>EXTRA_PLACEHOLDER\<close> error, and every
  error of these two types names its placeholder. Such an error exists exactly when the
  two sets differ, and it makes the result invalid; then the confidence is 0.5 times what
  it is with the placeholder stage switched off, whatever the number of errors, and when
  the sets are equal it is what it is with the stage switched off.
\<close>

theorem validate_placeholder_preservation:
  assumes enabled: "preservePlaceholders config \<noteq> Some False"
    and nonblank: "\<not> (\<forall>c \<in> set (translatedText result). is_js_space c)"
  shows "let r = validate rt config result sourceUnit;
             r0 = validate rt (config\<lparr>preservePlaceholders := Some False\<rparr>) result sourceUnit;
             src = set (placeholders sourceUnit);
             got = set (extractPlaceholders (translatedText result));
             placeholderError = (\<lambda>e. type e = str ''MISSING_PLACEHOLDER''
                                     \<or> type e = str ''EXTRA_PLACEHOLDER'')
         in (\<forall>p. length (filter (\<lambda>e. type e = str ''MISSING_PLACEHOLDER'' \<and> field e = Some p)
                      (errors r)) = (if p \<in> src - got then 1 else 0))
          \<and> (\<forall>p. length (filter (\<lambda>e. type e = str ''EXTRA_PLACEHOLDER'' \<and> field e = Some p)
                      (errors r)) = (if p \<in> got - src then 1 else 0))
          \<and> (\<forall>e \<in> set (errors r). placeholderError e \<longrightarrow> field e \<noteq> None)
          \<and> ((\<exists>e \<in> set (errors r). placeholderError e) \<longleftrightarrow> src \<noteq> got)
          \<and> ((\<exists>e \<in> set (errors r). placeholderError e) \<longrightarrow> \<not> isValid r)
          \<and> (src \<noteq> got \<longrightarrow> confidence r = js_mul (fl (1 / 2)) (confidence r0))
          \<and> (src = got \<longrightarrow> confidence r = confidence r0)"
proof -
  let ?r = "validate rt config result sourceUnit"
  let ?cfgb = "config\<lparr>preservePlaceholders := Some False\<rparr>"
  let ?rb = "validate rt ?cfgb result sourceUnit"
  let ?src = "set (placeholders sourceUnit)"
  let ?got = "set (extractPlaceholders (translatedText result))"
  let ?PE = "validatePlaceholders sourceUnit result"
  let ?SW = "validateSemantics rt config sourceUnit result"
  let ?LK = "preventSourceLeakage config \<noteq> Some False \<and> detectSourceLeakage rt sourceUnit result"
  let ?LE = "if ?LK then [\<lparr>type = str ''SOURCE_LEAKAGE'',
                 message = str ''Translation appears to be in source language'',
                 field = None\<rparr>] else []"
  note f = validate_nonblank [OF nonblank, of rt config sourceUnit]
  note f0 = validate_nonblank [OF nonblank, of rt ?cfgb sourceUnit]
  from f(1) enabled have errs: "errors ?r = ?PE @ ?LE"
    by simp
  have leak_none:
    "filter (\<lambda>e. type e = str ''MISSING_PLACEHOLDER'' \<and> field e = Some p) ?LE = []"
    "filter (\<lambda>e. type e = str ''EXTRA_PLACEHOLDER'' \<and> field e = Some p) ?LE = []" for p
    by simp_all
  have missing: "length (filter (\<lambda>e. type e = str ''MISSING_PLACEHOLDER'' \<and> field e = Some p)
                      (errors ?r)) = (if p \<in> ?src - ?got then 1 else 0)" for p
    unfolding errs filter_append leak_none
    using validatePlaceholders_missing_count [of p sourceUnit result] by simp
  have extra: "length (filter (\<lambda>e. type e = str ''EXTRA_PLACEHOLDER'' \<and> field e = Some p)
                      (errors ?r)) = (if p \<in> ?got - ?src then 1 else 0)" for p
    unfolding errs filter_append leak_none
    using validatePlaceholders_extra_count [of p sourceUnit result] by simp
  have in_pe: "e \<in> set ?PE"
    if "e \<in> set (errors ?r)"
      "type e = str ''MISSING_PLACEHOLDER'' \<or> type e = str ''EXTRA_PLACEHOLDER''" for e
    using that type_names_distinct unfolding errs by (auto split: if_splits)
  have fields: "field e \<noteq> None"
    if "e \<in> set (errors ?r)"
      "type e = str ''MISSING_PLACEHOLDER'' \<or> type e = str ''EXTRA_PLACEHOLDER''" for e
    using in_pe [OF that] validatePlaceholders_types by blast
  have any: "(\<exists>e \<in> set (errors ?r).
        type e = str ''MISSING_PLACEHOLDER'' \<or> type e = str ''EXTRA_PLACEHOLDER'')
      \<longleftrightarrow> ?src \<noteq> ?got"
  proof
    assume "\<exists>e \<in> set (errors ?r).
        type e = str ''MISSING_PLACEHOLDER'' \<or> type e = str ''EXTRA_PLACEHOLDER''"
    with in_pe have "?PE \<noteq> []" by fastforce
    then show "?src \<noteq> ?got"
      by (simp add: validatePlaceholders_Nil_iff)
  next
    assume "?src \<noteq> ?got"
    then have "?PE \<noteq> []"
      by (simp add: validatePlaceholders_Nil_iff)
    then obtain e where e: "e \<in> set ?PE"
      by (cases ?PE) auto
    with validatePlaceholders_types [OF e] show "\<exists>e \<in> set (errors ?r).
        type e = str ''MISSING_PLACEHOLDER'' \<or> type e = str ''EXTRA_PLACEHOLDER''"
      unfolding errs by auto
  qed
  have invalid: "\<not> isValid ?r"
    if "\<exists>e \<in> set (errors ?r).
        type e = str ''MISSING_PLACEHOLDER'' \<or> type e = str ''EXTRA_PLACEHOLDER''"
    using that f(3) by auto
  have sw0: "validateSemantics rt ?cfgb sourceUnit result = ?SW"
    by (simp add: validateSemantics_def)
  have c0: "confidence ?rb =
      (if ?LK then js_mul (if ?SW \<noteq> [] then js_mul (Num 1) (fl (4 / 5)) else Num 1) (fl (3 / 10))
       else (if ?SW \<noteq> [] then js_mul (Num 1) (fl (4 / 5)) else Num 1))"
    unfolding f0(4) Let_def sw0 by simp
  have halved: "confidence ?r = js_mul (fl (1 / 2)) (confidence ?rb)" if "?src \<noteq> ?got"
  proof -
    from that have pe: "?PE \<noteq> []"
      by (simp add: validatePlaceholders_Nil_iff)
    with enabled have "confidence ?r =
        (if ?LK then js_mul (if ?SW \<noteq> [] then js_mul (js_mul (Num 1) (fl (1 / 2))) (fl (4 / 5))
                             else js_mul (Num 1) (fl (1 / 2))) (fl (3 / 10))
         else (if ?SW \<noteq> [] then js_mul (js_mul (Num 1) (fl (1 / 2))) (fl (4 / 5))
               else js_mul (Num 1) (fl (1 / 2))))"
      unfolding f(4) Let_def by simp
    with confidence_halved [of "?SW \<noteq> []" ?LK, unfolded Let_def] c0 show ?thesis
      by simp
  qed
  have same: "confidence ?r = confidence ?rb" if "?src = ?got"
  proof -
    from that have "?PE = []"
      by (simp add: validatePlaceholders_Nil_iff)
    then show ?thesis
      unfolding f(4) c0 Let_def by simp
  qed
  from missing extra fields any invalid halved same show ?thesis
    unfolding Let_def by blast
qed

theorem validate_placeholder_preservation_witness:
  "preservePlaceholders default_config \<noteq> Some False
   \<and> ch CHR ''B'' \<in> set (translatedText (ex_translation ''Bonjour''))
   \<and> \<not> is_js_space (ch CHR ''B'')
   \<and> str ''{name}'' \<in> set (placeholders ex_source)
        - set (extractPlaceholders (translatedText (ex_translation ''Bonjour'')))
   \<and> length (filter (\<lambda>e. type e = str ''MISSING_PLACEHOLDER'' \<and> field e = Some (str ''{name}''))
        (errors (validate ex_runtime default_config (ex_translation ''Bonjour'') ex_source))) = 1
   \<and> \<not> isValid (validate ex_runtime default_config (ex_translation ''Bonjour'') ex_source)
   \<and> confidence (validate ex_runtime default_config (ex_translation ''Bonjour'') ex_source)
       = js_mul (fl (1 / 2))
           (confidence (validate ex_runtime (default_config\<lparr>preservePlaceholders := Some False\<rparr>)
              (ex_translation ''Bonjour'') ex_source))"
proof -
  let ?r = "validate ex_runtime default_config (ex_translation ''Bonjour'') ex_source"
  have enabled: "preservePlaceholders default_config \<noteq> Some False"
    by (simp add: default_config_def)
  note t = validate_placeholder_preservation [OF enabled ex_nonblank, of ex_runtime ex_source,
      unfolded Let_def]
  have mem: "str ''{name}'' \<in> set (placeholders ex_source)
        - set (extractPlaceholders (translatedText (ex_translation ''Bonjour'')))"
    by (simp add: ex_got ex_source_def)
  then have ne: "set (placeholders ex_source)
      \<noteq> set (extractPlaceholders (translatedText (ex_translation ''Bonjour'')))"
    by blast
  from t mem have "length (filter (\<lambda>e. type e = str ''MISSING_PLACEHOLDER''
        \<and> field e = Some (str ''{name}'')) (errors ?r)) = 1"
    by presburger
  moreover from t ne have "\<not> isValid ?r"
    by blast
  moreover from t ne have "confidence ?r = js_mul (fl (1 / 2))
      (confidence (validate ex_runtime (default_config\<lparr>preservePlaceholders := Some False\<rparr>)
         (ex_translation ''Bonjour'') ex_source))"
    by blast
  ultimately show ?thesis
    using enabled ex_first_char mem by blast
qed

end
